(* ===== verification/Prelude.thy ===== *)
theory Prelude
  imports
    Complex_Main
    "HOL-Library.AList"
    "HOL-Library.List_Lexorder"
    "HOL-Library.Char_ord"
    "HOL-Library.Multiset"
begin

text \<open>
  Shared vocabulary of the development. Both scripts of the repository
  (\<open>src/create_sankey_diagram.py\<close> and \<open>src/create_resource_map.py\<close>) work on
  Python dictionaries with string keys, index them with \<open>d[k]\<close> (which raises
  \<open>KeyError\<close>), read them with \<open>d.get(k, default)\<close>, update them with
  \<open>d[k] += v\<close>, and build lists by comprehensions that raise on the first failing
  element. This theory models those idioms once:
  \<^item> a dict is an association list in insertion order (\<open>dict\<close>), looked up with
    \<open>map_of\<close> and updated with \<open>AList.update\<close>, which overwrites an existing key in
    place and appends a new key at the end, as CPython's dict does;
  \<^item> an exception is the left side of a sum, \<open>py_error + 'a\<close>;
  \<^item> Python floats are modelled as exact \<open>real\<close>s (the rounding of IEEE doubles is
    not modelled; see the header of \<open>Spec2Isabelle\<close>);
  \<^item> pandas' \<open>mean\<close> of an empty column is NaN, modelled as \<open>None\<close>.
  Strings are ordered lexicographically by character code (\<open>List_Lexorder\<close> and
  \<open>Char_ord\<close>), which is Python's order on \<open>str\<close>.
\<close>

named_theorems dict_simps "evaluation rules of the Python dict model"
named_theorems config_simps "unfolding of the scripts' fixed configuration tables"

type_synonym ('k, 'v) dict = "('k \<times> 'v) list"
type_synonym amount = real

datatype py_error =
    KeyError string
  | ReadError string \<comment> \<open>\<open>pd.read_csv\<close> raised on the named path\<close>
  | ValueError string
  | ZeroDivisionError string

definition dict_getitem :: "(string, 'v) dict \<Rightarrow> string \<Rightarrow> py_error + 'v" where
  "dict_getitem d k = (case map_of d k of None \<Rightarrow> Inl (KeyError k) | Some v \<Rightarrow> Inr v)"

definition dict_get :: "('k, 'v) dict \<Rightarrow> 'k \<Rightarrow> 'v \<Rightarrow> 'v" where
  "dict_get d k dflt = (case map_of d k of None \<Rightarrow> dflt | Some v \<Rightarrow> v)"

text \<open>\<open>d[k] += v\<close>: a \<open>__getitem__\<close> that may raise, then a \<open>__setitem__\<close>.\<close>

definition dict_iadd :: "(string, real) dict \<Rightarrow> string \<Rightarrow> real \<Rightarrow> py_error + (string, real) dict" where
  "dict_iadd d k v =
     (case dict_getitem d k of Inl e \<Rightarrow> Inl e | Inr cur \<Rightarrow> Inr (AList.update k (cur + v) d))"

text \<open>A list comprehension \<open>[f(x) for x in xs]\<close> whose element expression may raise.\<close>

fun map_raise :: "('a \<Rightarrow> py_error + 'b) \<Rightarrow> 'a list \<Rightarrow> py_error + 'b list" where
  "map_raise f [] = Inr []"
| "map_raise f (x # xs) =
     (case f x of
        Inl e \<Rightarrow> Inl e
      | Inr y \<Rightarrow> (case map_raise f xs of Inl e \<Rightarrow> Inl e | Inr ys \<Rightarrow> Inr (y # ys)))"

text \<open>pandas \<open>Series.mean()\<close>: NaN (here \<open>None\<close>) on an empty series.\<close>

definition mean_opt :: "real list \<Rightarrow> real option" where
  "mean_opt xs = (if xs = [] then None else Some (sum_list xs / real (length xs)))"

subsection \<open>Dict lemmas\<close>

lemma dict_getitem_Inr_iff [dict_simps]: "dict_getitem d k = Inr v \<longleftrightarrow> map_of d k = Some v"
  by (auto simp: dict_getitem_def split: option.splits)

lemma dict_getitem_Inl_iff [dict_simps]:
  "dict_getitem d k = Inl e \<longleftrightarrow> map_of d k = None \<and> e = KeyError k"
  by (auto simp: dict_getitem_def split: option.splits)

lemma map_of_None_iff_keys: "map_of d k = None \<longleftrightarrow> k \<notin> set (map fst d)"
  by (simp add: map_of_eq_None_iff)

lemma dict_get_absent: "k \<notin> set (map fst d) \<Longrightarrow> dict_get d k dflt = dflt"
proof -
  assume "k \<notin> set (map fst d)"
  then have "map_of d k = None" by (simp add: map_of_eq_None_iff)
  then show ?thesis by (simp add: dict_get_def)
qed

lemma map_dict_get_keys:
  "distinct (map fst d) \<Longrightarrow> map (\<lambda>k. dict_get d k (f k)) (map fst d) = map snd d"
proof (induction d)
  case Nil
  then show ?case by simp
next
  case (Cons p d)
  have "k \<in> set (map fst d) \<Longrightarrow> dict_get (p # d) k (f k) = dict_get d k (f k)" for k
    using Cons.prems by (cases p) (auto simp: dict_get_def)
  then have "map (\<lambda>k. dict_get (p # d) k (f k)) (map fst d) = map (\<lambda>k. dict_get d k (f k)) (map fst d)"
    by (rule map_cong [OF refl])
  with Cons show ?case by (cases p) (simp add: dict_get_def)
qed

lemma map_of_map_keys:
  "map_of (map (\<lambda>k. (k, h k)) ks) k = (if k \<in> set ks then Some (h k) else None)"
  by (induction ks) auto

lemma map_fst_map_value [dict_simps]:
  "map fst (map (\<lambda>(k, x). (k, h k x)) d) = map fst d"
  by (induction d) auto

lemma update_existing_key:
  "distinct (map fst d) \<Longrightarrow> k \<in> set (map fst d) \<Longrightarrow>
   AList.update k v d = map (\<lambda>(k', x). (k', if k' = k then v else x)) d"
proof (induction d)
  case Nil
  then show ?case by simp
next
  case (Cons p d)
  obtain k0 x0 where p: "p = (k0, x0)" by (cases p)
  show ?case
  proof (cases "k0 = k")
    case True
    with Cons.prems p have "k \<notin> set (map fst d)" by simp
    then have "map (\<lambda>(k', x). (k', if k' = k then v else x)) d = d"
      by (induction d) auto
    with True p show ?thesis by simp
  next
    case False
    with Cons p show ?thesis by simp
  qed
qed

lemma dict_iadd_existing [dict_simps]:
  "distinct (map fst d) \<Longrightarrow> k \<in> set (map fst d) \<Longrightarrow>
   dict_iadd d k v = Inr (map (\<lambda>(k', x). (k', if k' = k then x + v else x)) d)"
proof -
  assume dist: "distinct (map fst d)" and k: "k \<in> set (map fst d)"
  then obtain cur where cur: "map_of d k = Some cur"
    using map_of_None_iff_keys by (metis not_None_eq)
  have "map_of d k' = Some x \<Longrightarrow> k' = k \<Longrightarrow> x = cur" for k' x using cur by simp
  then have "map (\<lambda>(k', x). (k', if k' = k then cur + v else x)) d
           = map (\<lambda>(k', x). (k', if k' = k then x + v else x)) d"
    using dist by (auto simp: add.commute intro!: map_cong)
  then show ?thesis
    using cur dist k by (simp add: dict_iadd_def dict_getitem_def update_existing_key add.commute)
qed

lemma dict_iadd_keys [dict_simps]:
  assumes "dict_iadd d k v = Inr d'"
  shows "map fst d' = map fst d"
proof -
  from assms obtain cur where cur: "map_of d k = Some cur"
    and d': "d' = AList.update k (cur + v) d"
    by (auto simp: dict_iadd_def dict_getitem_def split: option.splits)
  from cur have "k \<in> set (map fst d)"
    by (force dest: map_of_SomeD)
  with d' show ?thesis by (simp add: update_keys)
qed

subsection \<open>Comprehensions that raise\<close>

lemma map_raise_Inr:
  "(\<And>x. x \<in> set xs \<Longrightarrow> f x = Inr (g x)) \<Longrightarrow> map_raise f xs = Inr (map g xs)"
  by (induction xs) auto

lemma map_raise_Inl:
  "map_raise f xs = Inl e \<Longrightarrow> \<exists>x \<in> set xs. f x = Inl e"
  by (induction xs) (auto split: sum.splits)

subsection \<open>Sums over keys\<close>

lemma sum_list_select_none:
  "k \<notin> set ks \<Longrightarrow> (\<Sum>k' \<leftarrow> ks. if k' = k then c else 0) = (0 :: 'a :: comm_monoid_add)"
  by (induction ks) auto

lemma sum_list_select_one:
  "distinct ks \<Longrightarrow> k \<in> set ks \<Longrightarrow> (\<Sum>k' \<leftarrow> ks. if k' = k then c else 0) = (c :: 'a :: comm_monoid_add)"
  by (induction ks) (auto simp: sum_list_select_none)

lemma sum_list_select_entry:
  fixes F :: "'v \<Rightarrow> 'a :: comm_monoid_add"
  assumes "distinct (map fst xs)" and "(k, v) \<in> set xs"
  shows "(\<Sum>p \<leftarrow> xs. if fst p = k then F (snd p) else 0) = F v"
  using assms
proof (induction xs)
  case Nil
  then show ?case by simp
next
  case (Cons p xs)
  show ?case
  proof (cases "fst p = k")
    case True
    with Cons.prems have "p = (k, v)" and "k \<notin> set (map fst xs)"
      by (auto simp: rev_image_eqI)
    then have "(\<Sum>q \<leftarrow> xs. if fst q = k then F (snd q) else 0) = 0"
      by (induction xs) auto
    with True \<open>p = (k, v)\<close> show ?thesis by simp
  next
    case False
    with Cons show ?thesis by auto
  qed
qed

lemma sum_list_filter_partition:
  fixes f :: "'a \<Rightarrow> 'b :: comm_monoid_add"
  assumes "distinct ks" and "set (map g xs) \<subseteq> set ks"
  shows "(\<Sum>k \<leftarrow> ks. sum_list (map f (filter (\<lambda>x. g x = k) xs))) = sum_list (map f xs)"
  using assms(2)
proof (induction xs)
  case Nil
  then show ?case by (simp add: sum_list_triv)
next
  case (Cons x xs)
  have "\<And>k. sum_list (map f (filter (\<lambda>y. g y = k) (x # xs)))
     = (if g x = k then f x else 0) + sum_list (map f (filter (\<lambda>y. g y = k) xs))"
    by simp
  then have split: "(\<Sum>k \<leftarrow> ks. sum_list (map f (filter (\<lambda>y. g y = k) (x # xs))))
     = (\<Sum>k \<leftarrow> ks. if g x = k then f x else 0)
       + (\<Sum>k \<leftarrow> ks. sum_list (map f (filter (\<lambda>y. g y = k) xs)))"
    by (simp only: sum_list_addf)
  have "(\<Sum>k \<leftarrow> ks. if g x = k then f x else 0) = f x"
    using sum_list_select_one [OF assms(1), of "g x" "f x"] Cons.prems
    by (simp add: eq_commute)
  with split Cons show ?case by simp
qed

subsection \<open>First element with a property\<close>

lemma find_Some_split:
  "List.find P xs = Some x \<longleftrightarrow> (\<exists>ys zs. xs = ys @ x # zs \<and> P x \<and> (\<forall>y \<in> set ys. \<not> P y))"
proof
  assume "List.find P xs = Some x"
  then show "\<exists>ys zs. xs = ys @ x # zs \<and> P x \<and> (\<forall>y \<in> set ys. \<not> P y)"
  proof (induction xs)
    case Nil
    then show ?case by simp
  next
    case (Cons a xs)
    show ?case
    proof (cases "P a")
      case True
      with Cons.prems have "x = a" by simp
      with True show ?thesis by (intro exI [of _ "[]"] exI [of _ xs]) simp
    next
      case False
      with Cons.prems have "List.find P xs = Some x" by simp
      then obtain ys zs where "xs = ys @ x # zs" "P x" "\<forall>y \<in> set ys. \<not> P y"
        using Cons.IH by blast
      with False show ?thesis by (intro exI [of _ "a # ys"] exI [of _ zs]) simp
    qed
  qed
next
  assume "\<exists>ys zs. xs = ys @ x # zs \<and> P x \<and> (\<forall>y \<in> set ys. \<not> P y)"
  then obtain ys zs where "xs = ys @ x # zs" "P x" "\<forall>y \<in> set ys. \<not> P y" by blast
  then show "List.find P xs = Some x" by (induction ys arbitrary: xs) auto
qed

subsection \<open>Enumerated loops\<close>

text \<open>\<open>for j, x in enumerate(xs)\<close> is modelled over \<open>enumerate j xs\<close>.\<close>

lemma map_enumerate_ignore_index [simp]:
  "map (\<lambda>(k, x). f x) (enumerate j xs) = map f xs"
  by (induction xs arbitrary: j) auto

lemma filter_enumerate_index:
  "filter (\<lambda>p. fst p = j) (enumerate i xs) =
     (if i \<le> j \<and> j < i + length xs then [(j, xs ! (j - i))] else [])"
proof (induction xs arbitrary: i)
  case Nil
  then show ?case by simp
next
  case (Cons x xs)
  show ?case
  proof (cases "j = i")
    case True
    with Cons.IH [of "Suc i"] show ?thesis by simp
  next
    case False
    with Cons.IH [of "Suc i"] show ?thesis by (auto simp: nth_Cons')
  qed
qed

lemma sum_list_swap:
  fixes f :: "'a \<Rightarrow> 'b \<Rightarrow> 'c :: comm_monoid_add"
  shows "(\<Sum>x \<leftarrow> xs. \<Sum>y \<leftarrow> ys. f x y) = (\<Sum>y \<leftarrow> ys. \<Sum>x \<leftarrow> xs. f x y)"
  by (induction xs) (auto simp: sum_list_addf sum_list_triv)

lemma sum_list_mult_pairs:
  fixes c :: "'c :: semiring_0"
  shows "(\<Sum>(x, y) \<leftarrow> xs. c * f x y) = c * (\<Sum>(x, y) \<leftarrow> xs. f x y)"
  by (induction xs) (auto simp: distrib_left)

lemma nth_concat_blocks:
  assumes "\<forall>xs \<in> set xss. length xs = m" and "k < length xss * m"
  shows "concat xss ! k = xss ! (k div m) ! (k mod m)"
  using assms
proof (induction xss arbitrary: k)
  case Nil
  then show ?case by simp
next
  case (Cons xs xss)
  then have m: "0 < m" and len: "length xs = m" by (auto intro: gr0I)
  show ?case
  proof (cases "k < m")
    case True
    with len show ?thesis by (simp add: nth_append)
  next
    case False
    with Cons.prems m have "k - m < length xss * m" by auto
    with Cons.IH Cons.prems have "concat xss ! (k - m) = xss ! ((k - m) div m) ! ((k - m) mod m)"
      by simp
    with False m len show ?thesis
      by (simp add: nth_append le_div_geq le_mod_geq)
  qed
qed

lemma filter_take_prefix: "\<exists>j. filter P (take k xs) = take j (filter P xs)"
proof (induction xs arbitrary: k)
  case Nil
  then show ?case by simp
next
  case (Cons x xs)
  show ?case
  proof (cases k)
    case 0
    then show ?thesis by (intro exI [of _ 0]) simp
  next
    case (Suc k')
    from Cons.IH [of k'] obtain j where j: "filter P (take k' xs) = take j (filter P xs)" by blast
    show ?thesis
    proof (cases "P x")
      case True
      with Suc j show ?thesis by (intro exI [of _ "Suc j"]) simp
    next
      case False
      with Suc j show ?thesis by (intro exI [of _ j]) simp
    qed
  qed
qed

subsection \<open>Means\<close>

lemma mean_opt_Some_iff: "mean_opt xs = Some m \<longleftrightarrow> xs \<noteq> [] \<and> m = sum_list xs / real (length xs)"
  by (auto simp: mean_opt_def)

end
