(* ===== verification/Loader.thy ===== *)
theory Loader
  imports Prelude
begin

text \<open>
  The loader/aggregator shared by both scripts
  (\<open>src/create_sankey_diagram.py\<close> lines 11--29,
  \<open>src/create_resource_map.py\<close> lines 13--38): one CSV file per resource
  category is read with \<open>pd.read_csv\<close>, every row is tagged with its category in the
  column \<open>resource_category\<close>, the frames are concatenated, and the Sankey script sums
  \<open>resource_amount\<close> per category with \<open>groupby(...).sum()\<close>.

  A row is the record \<open>resource_point\<close> with the columns the scripts read. The data
  directory is a map from paths to parsed rows; a path it does not map is a file that
  \<open>pd.read_csv\<close> cannot read (missing or malformed), which raises and ends the run.
  The loop is \<open>load_frames\<close>, with the list \<open>all_data\<close> as its accumulator.
  \<open>groupby_sum\<close> follows pandas: the groups come out with their keys sorted (the
  default \<open>sort=True\<close>), one per category that occurs in the rows.
\<close>

record resource_point =
  latitude :: real
  longitude :: real
  resource_amount :: real
  resource :: string
  county_name :: string
  bt23_scenario :: string
  resource_price :: real
  resource_category :: string

type_synonym filesystem = "string \<rightharpoonup> resource_point list"

definition data_files :: "(string, string) dict" where
  "data_files =
    [(''Forest Processing Waste'', ''data/CA_forest_processing_waste_points_BillionTonReport.csv''),
     (''Logging Residues'', ''data/CA_logging_residues_points_BillionTonReport.csv''),
     (''Other Forest Waste'', ''data/CA_other_forest_waste_points_BillionTonReport.csv''),
     (''Small-Diameter Trees'', ''data/CA_small-diameter_trees_points_BillionTonReport.csv'')]"

definition read_csv :: "filesystem \<Rightarrow> string \<Rightarrow> py_error + resource_point list" where
  "read_csv fs path = (case fs path of None \<Rightarrow> Inl (ReadError path) | Some df \<Rightarrow> Inr df)"

text \<open>\<open>df['resource_category'] = resource_name\<close> overwrites the column in every row.\<close>

definition tag_category :: "string \<Rightarrow> resource_point list \<Rightarrow> resource_point list" where
  "tag_category name df = map (\<lambda>r. r\<lparr>resource_category := name\<rparr>) df"

fun load_frames ::
  "filesystem \<Rightarrow> resource_point list list \<Rightarrow> (string, string) dict \<Rightarrow> py_error + resource_point list list" where
  "load_frames fs all_data [] = Inr all_data"
| "load_frames fs all_data ((resource_name, file_path) # rest) =
     (case read_csv fs file_path of
        Inl e \<Rightarrow> Inl e
      | Inr df \<Rightarrow> load_frames fs (all_data @ [tag_category resource_name df]) rest)"

text \<open>\<open>pd.concat(all_data, ignore_index=True)\<close> after the loop.\<close>

definition load_combined :: "filesystem \<Rightarrow> (string, string) dict \<Rightarrow> py_error + resource_point list" where
  "load_combined fs files =
     (case load_frames fs [] files of Inl e \<Rightarrow> Inl e | Inr all_data \<Rightarrow> Inr (concat all_data))"

definition groupby_sum :: "resource_point list \<Rightarrow> (string, real) dict" where
  "groupby_sum rows =
     map (\<lambda>k. (k, sum_list (map resource_amount (filter (\<lambda>r. resource_category r = k) rows))))
       (sort (remdups (map resource_category rows)))"

text \<open>The first file of the list that cannot be read, in the loop's order.\<close>

definition first_unreadable :: "filesystem \<Rightarrow> (string, string) dict \<Rightarrow> (string \<times> string) option" where
  "first_unreadable fs files = find (\<lambda>(n, p). fs p = None) files"

subsection \<open>Sample data\<close>

text \<open>
  A small data directory used by the witnesses: the four files of \<open>data_files\<close>,
  with category totals 100, 200, 50 and 10 (the example of the specification).
\<close>

definition demo_point :: "real \<Rightarrow> resource_point" where
  "demo_point a =
     \<lparr>latitude = 38, longitude = -121, resource_amount = a, resource = ''residue'',
      county_name = ''Shasta'', bt23_scenario = ''mature-market'', resource_price = 60,
      resource_category = ''''\<rparr>"

definition demo_fs :: filesystem where
  "demo_fs = map_of
    [(''data/CA_forest_processing_waste_points_BillionTonReport.csv'', [demo_point 60, demo_point 40]),
     (''data/CA_logging_residues_points_BillionTonReport.csv'', [demo_point 200]),
     (''data/CA_other_forest_waste_points_BillionTonReport.csv'', [demo_point 50]),
     (''data/CA_small-diameter_trees_points_BillionTonReport.csv'', [demo_point 10])]"

lemmas loader_demo_simps [config_simps] = data_files_def demo_fs_def demo_point_def

subsection \<open>The loading loop\<close>

lemma load_frames_eq:
  "load_frames fs acc files =
     (case first_unreadable fs files of
        None \<Rightarrow> Inr (acc @ map (\<lambda>(n, p). tag_category n (the (fs p))) files)
      | Some (n, p) \<Rightarrow> Inl (ReadError p))"
proof (induction files arbitrary: acc)
  case Nil
  then show ?case by (simp add: first_unreadable_def)
next
  case (Cons f files)
  obtain n p where f: "f = (n, p)" by (cases f)
  show ?case
  proof (cases "fs p")
    case None
    with f show ?thesis by (simp add: first_unreadable_def read_csv_def)
  next
    case (Some df)
    with f Cons.IH show ?thesis
      by (simp add: first_unreadable_def read_csv_def split: option.splits)
  qed
qed

lemma load_combined_eq:
  "load_combined fs files =
     (case first_unreadable fs files of
        None \<Rightarrow> Inr (concat (map (\<lambda>(n, p). tag_category n (the (fs p))) files))
      | Some (n, p) \<Rightarrow> Inl (ReadError p))"
  by (simp add: load_combined_def load_frames_eq split: option.splits)

lemma first_unreadable_Some_iff:
  "first_unreadable fs files = Some (n, p) \<longleftrightarrow>
   (\<exists>pre post. files = pre @ (n, p) # post \<and> (\<forall>(n', p') \<in> set pre. fs p' \<noteq> None) \<and> fs p = None)"
  by (auto simp: first_unreadable_def find_Some_split)

lemma first_unreadable_None_iff:
  "first_unreadable fs files = None \<longleftrightarrow> (\<forall>(n, p) \<in> set files. fs p \<noteq> None)"
  by (auto simp: first_unreadable_def find_None_iff)

lemma tag_category_category: "r \<in> set (tag_category n df) \<Longrightarrow> resource_category r = n"
  by (auto simp: tag_category_def)

lemma tag_category_amounts [simp]:
  "map resource_amount (tag_category n df) = map resource_amount df"
  by (simp add: tag_category_def)

lemma length_tag_category [simp]: "length (tag_category n df) = length df"
  by (simp add: tag_category_def)

lemma filter_tagged_frames:
  assumes "distinct (map fst files)" and "(n, p) \<in> set files"
  shows "filter (\<lambda>r. resource_category r = n) (concat (map (\<lambda>(n, p). tag_category n (g p)) files))
         = tag_category n (g p)"
  using assms
proof (induction files)
  case Nil
  then show ?case by simp
next
  case (Cons f files)
  obtain n' p' where f: "f = (n', p')" by (cases f)
  have own: "filter (\<lambda>r. resource_category r = n) (tag_category n (g p)) = tag_category n (g p)"
    by (auto simp: filter_id_conv dest: tag_category_category)
  have other: "a \<noteq> n \<Longrightarrow> filter (\<lambda>r. resource_category r = n) (tag_category a df) = []" for a df
    by (auto simp: filter_empty_conv dest: tag_category_category)
  have none: "n \<notin> set (map fst fs') \<Longrightarrow>
      filter (\<lambda>r. resource_category r = n) (concat (map (\<lambda>(n, p). tag_category n (g p)) fs')) = []" for fs'
    by (induction fs') (auto simp: filter_empty_conv dest: tag_category_category)
  show ?case
  proof (cases "n' = n")
    case True
    with Cons.prems f have "p' = p" and "n \<notin> set (map fst files)"
      by (auto simp: rev_image_eqI)
    with True f own none show ?thesis by simp
  next
    case False
    with Cons f other show ?thesis by auto
  qed
qed

lemma load_combined_Inr:
  "load_combined fs files = Inr rows \<longleftrightarrow>
   first_unreadable fs files = None \<and> rows = concat (map (\<lambda>(n, p). tag_category n (the (fs p))) files)"
  by (auto simp: load_combined_eq split: option.splits prod.splits)

lemma loaded_categories:
  "load_combined fs files = Inr rows \<Longrightarrow> resource_category ` set rows \<subseteq> set (map fst files)"
  by (force simp: load_combined_Inr dest: tag_category_category)

lemma tagged_empty_iff:
  "concat (map (\<lambda>(n, p). tag_category n (g p)) files) = [] \<longleftrightarrow> (\<forall>(n, p)\<in>set files. g p = [])"
  by (auto simp: tag_category_def)

lemma all_empty_readable:
  "(\<forall>(n, p)\<in>set files. fs p = Some []) \<longleftrightarrow>
   first_unreadable fs files = None \<and> (\<forall>(n, p)\<in>set files. the (fs p) = [])"
  unfolding first_unreadable_None_iff by (auto 4 3 simp: ball_conj_distrib [symmetric])

lemma load_combined_Nil_iff:
  assumes "load_combined fs files = Inr rows"
  shows "rows = [] \<longleftrightarrow> (\<forall>(n, p)\<in>set files. fs p = Some [])"
proof -
  from assms have "first_unreadable fs files = None"
    and rows: "rows = concat (map (\<lambda>(n, p). tag_category n (the (fs p))) files)"
    by (simp_all add: load_combined_Inr)
  then show ?thesis by (simp only: rows tagged_empty_iff all_empty_readable simp_thms)
qed

lemma load_combined_Inl: "load_combined fs files = Inl e \<Longrightarrow> \<exists>p. e = ReadError p"
  by (auto simp: load_combined_eq split: option.splits)

definition demo_rows :: "resource_point list" where
  "demo_rows = concat (map (\<lambda>(n, p). tag_category n (the (demo_fs p))) data_files)"

lemma load_demo: "load_combined demo_fs data_files = Inr demo_rows"
  by (simp add: load_combined_eq demo_rows_def first_unreadable_def config_simps)

subsection \<open>Aggregation by category\<close>

lemma groupby_sum_keys:
  "map fst (groupby_sum rows) = sort (remdups (map resource_category rows))"
  by (simp add: groupby_sum_def comp_def)

lemma groupby_sum_Nil_iff: "groupby_sum rows = [] \<longleftrightarrow> rows = []"
proof -
  have "sort (remdups (map resource_category rows)) = [] \<longleftrightarrow> set (map resource_category rows) = {}"
    by (metis set_empty set_remdups set_sort)
  then show ?thesis by (simp add: groupby_sum_def)
qed

lemma groupby_sum_lookup:
  "map_of (groupby_sum rows) k =
     (if k \<in> resource_category ` set rows
      then Some (sum_list (map resource_amount (filter (\<lambda>r. resource_category r = k) rows)))
      else None)"
  by (simp add: groupby_sum_def map_of_map_keys)

lemma groupby_sum_total:
  "sum_list (map snd (groupby_sum rows)) = sum_list (map resource_amount rows)"
proof -
  let ?ks = "sort (remdups (map resource_category rows))"
  have "sum_list (map snd (groupby_sum rows))
      = (\<Sum>k \<leftarrow> ?ks. sum_list (map resource_amount (filter (\<lambda>r. resource_category r = k) rows)))"
    by (simp add: groupby_sum_def comp_def)
  also have "\<dots> = sum_list (map resource_amount rows)"
    by (rule sum_list_filter_partition) auto
  finally show ?thesis .
qed

subsection \<open>Properties\<close>

lemma demo_files_readable: "\<forall>(n, p) \<in> set data_files. demo_fs p \<noteq> None"
  by (simp add: data_files_def demo_fs_def)

text \<open>
  C8 (error). Loading fails exactly when some file cannot be read, and then the error is
  the \<open>ReadError\<close> of the first such file in the order of \<open>data_files\<close>: every
  file before it was read, and no partial result is returned.
\<close>

theorem load_combined_error:
  "load_combined fs files = Inl e \<longleftrightarrow>
   (\<exists>pre n p post. files = pre @ (n, p) # post \<and> (\<forall>(n', p') \<in> set pre. fs p' \<noteq> None) \<and>
                   fs p = None \<and> e = ReadError p)"
proof -
  have "load_combined fs files = Inl e \<longleftrightarrow>
        (\<exists>n p. first_unreadable fs files = Some (n, p) \<and> e = ReadError p)"
    by (auto simp: load_combined_eq split: option.splits)
  also have "\<dots> \<longleftrightarrow> (\<exists>pre n p post. files = pre @ (n, p) # post \<and>
                 (\<forall>(n', p') \<in> set pre. fs p' \<noteq> None) \<and> fs p = None \<and> e = ReadError p)"
    by (auto simp: first_unreadable_Some_iff)
  finally show ?thesis .
qed

theorem load_combined_error_witness:
  "load_combined (demo_fs(''data/CA_other_forest_waste_points_BillionTonReport.csv'' := None)) data_files
   = Inl (ReadError ''data/CA_other_forest_waste_points_BillionTonReport.csv'')"
proof -
  let ?fs = "demo_fs(''data/CA_other_forest_waste_points_BillionTonReport.csv'' := None)"
  have "data_files = take 2 data_files @ (''Other Forest Waste'', ''data/CA_other_forest_waste_points_BillionTonReport.csv'') # drop 3 data_files"
    and "\<forall>(n', p') \<in> set (take 2 data_files). ?fs p' \<noteq> None"
    by (simp_all add: data_files_def demo_fs_def)
  then show ?thesis
    using load_combined_error [of ?fs data_files] by fastforce
qed

text \<open>
  C9 (functional). When every file can be read, the combined frame is the concatenation,
  in the order of \<open>data_files\<close>, of each file's rows with \<open>resource_category\<close> set
  to that file's category.
\<close>

theorem load_combined_ok:
  assumes "\<forall>(n, p) \<in> set files. fs p \<noteq> None"
  shows "load_combined fs files = Inr (concat (map (\<lambda>(n, p). tag_category n (the (fs p))) files))"
  using assms by (simp add: load_combined_eq first_unreadable_None_iff [THEN iffD2])

theorem load_combined_ok_witness:
  "load_combined demo_fs data_files =
     Inr (concat (map (\<lambda>(n, p). tag_category n (the (demo_fs p))) data_files))"
  using load_combined_ok [OF demo_files_readable] .

text \<open>
  C10 (functional). Because the categories of \<open>data_files\<close> are distinct, filtering the
  combined frame on \<open>resource_category == name\<close> (as the map script does) returns
  exactly the rows of that category's file, in file order.
\<close>

theorem load_filter_category:
  assumes "distinct (map fst files)" and "(n, p) \<in> set files" and "load_combined fs files = Inr rows"
  shows "filter (\<lambda>r. resource_category r = n) rows = tag_category n (the (fs p))"
proof -
  from assms(3) have "first_unreadable fs files = None"
    by (simp add: load_combined_eq split: option.splits prod.splits)
  with assms(3) have "rows = concat (map (\<lambda>(n, p). tag_category n (the (fs p))) files)"
    by (simp add: load_combined_eq)
  with assms(1,2) show ?thesis
    by (simp add: filter_tagged_frames)
qed

theorem load_filter_category_witness:
  "filter (\<lambda>r. resource_category r = ''Forest Processing Waste'')
     (concat (map (\<lambda>(n, p). tag_category n (the (demo_fs p))) data_files))
   = tag_category ''Forest Processing Waste'' [demo_point 60, demo_point 40]"
proof -
  have d: "distinct (map fst data_files)" by (simp add: data_files_def)
  have m: "(''Forest Processing Waste'', ''data/CA_forest_processing_waste_points_BillionTonReport.csv'')
           \<in> set data_files" by (simp add: data_files_def)
  have "demo_fs ''data/CA_forest_processing_waste_points_BillionTonReport.csv''
        = Some [demo_point 60, demo_point 40]" by (simp add: demo_fs_def)
  with load_filter_category [OF d m] load_combined_eq [of demo_fs data_files]
    first_unreadable_None_iff [THEN iffD2, OF demo_files_readable]
  show ?thesis by simp
qed

text \<open>
  C11 (invariant). \<open>groupby('resource_category').sum()\<close> yields one entry per category
  present, with distinct keys in sorted order, each the sum of its category's amounts, and
  the group sums partition the grand total.
\<close>

theorem groupby_sum_partition:
  "sorted (map fst (groupby_sum rows)) \<and> distinct (map fst (groupby_sum rows)) \<and>
   set (map fst (groupby_sum rows)) = resource_category ` set rows \<and>
   (\<forall>k \<in> resource_category ` set rows. map_of (groupby_sum rows) k =
        Some (sum_list (map resource_amount (filter (\<lambda>r. resource_category r = k) rows)))) \<and>
   sum_list (map snd (groupby_sum rows)) = sum_list (map resource_amount rows)"
  by (simp add: groupby_sum_keys groupby_sum_lookup groupby_sum_total)

theorem groupby_sum_partition_witness:
  "map_of (groupby_sum (concat (map (\<lambda>(n, p). tag_category n (the (demo_fs p))) data_files)))
     ''Forest Processing Waste'' = Some 100"
proof -
  let ?rows = "concat (map (\<lambda>(n, p). tag_category n (the (demo_fs p))) data_files)"
  let ?k = "''Forest Processing Waste''"
  have k: "?k \<in> resource_category ` set ?rows"
    by (simp add: config_simps tag_category_def)
  have sum100: "sum_list (map resource_amount (filter (\<lambda>r. resource_category r = ?k) ?rows)) = 100"
    by (simp add: config_simps tag_category_def)
  have all: "\<forall>k \<in> resource_category ` set ?rows. map_of (groupby_sum ?rows) k =
        Some (sum_list (map resource_amount (filter (\<lambda>r. resource_category r = k) ?rows)))"
    using groupby_sum_partition [of ?rows] by (elim conjE)
  have "map_of (groupby_sum ?rows) ?k =
        Some (sum_list (map resource_amount (filter (\<lambda>r. resource_category r = ?k) ?rows)))"
    by (rule bspec [OF all k])
  then show ?thesis by (simp only: sum100)
qed

end
