(* ===== verification/Allocation.thy ===== *)
theory Allocation
  imports Prelude
begin

text \<open>
  The allocation engine of \<open>src/create_sankey_diagram.py\<close> (lines 41--78 and
  114--127): every resource category's total is fanned out over the end uses by the
  fixed percentage table \<open>end_uses\<close>. The nested loop appends one link per
  (resource, end use) pair to the lists \<open>sources\<close>, \<open>targets\<close> and \<open>values\<close>
  that feed the Sankey figure, and accumulates \<open>end_use_totals[end_use]\<close>.

  The loop state is the record \<open>sankey_state\<close>; the inner loop over the end uses is
  \<open>inner_loop\<close>, the outer loop over the resource totals is \<open>outer_loop\<close>, and
  \<open>allocate\<close> is the whole of lines 114--125 with the initial dict of line 114.
  \<open>allocations[resource]\<close> raises \<open>KeyError\<close> when the row of an end use has no
  entry for the resource; \<open>end_use_totals[end_use] += ...\<close> would raise too if the key
  were missing, which the invariant below excludes.

  The abstract specification is the cross product of the specification (section 3 of
  \<open>spec.md\<close>): \<open>flow_edges\<close> lists the links (source index, target index, amount) in
  loop order, \<open>end_use_total_spec\<close> gives the total per end use, and \<open>dense\<close> says
  that every row of the table has an entry for every resource. \<open>allocate_eq\<close> is the
  refinement theorem: on a dense table the loop computes exactly the specification, and
  otherwise it raises \<open>KeyError\<close> for the first resource that a row lacks.
\<close>

type_synonym end_use_table = "(string, (string, real) dict) dict"

definition end_uses :: end_use_table where
  "end_uses =
    [(''Bioenergy & Electricity'',
        [(''Forest Processing Waste'', 0.35), (''Logging Residues'', 0.40),
         (''Other Forest Waste'', 0.30), (''Small-Diameter Trees'', 0.25)]),
     (''Heat & Thermal Energy'',
        [(''Forest Processing Waste'', 0.25), (''Logging Residues'', 0.20),
         (''Other Forest Waste'', 0.25), (''Small-Diameter Trees'', 0.15)]),
     (''Wood Pellets'',
        [(''Forest Processing Waste'', 0.20), (''Logging Residues'', 0.15),
         (''Other Forest Waste'', 0.20), (''Small-Diameter Trees'', 0.30)]),
     (''Biofuels (Ethanol/Biodiesel)'',
        [(''Forest Processing Waste'', 0.10), (''Logging Residues'', 0.15),
         (''Other Forest Waste'', 0.10), (''Small-Diameter Trees'', 0.10)]),
     (''Biochar & Soil Amendments'',
        [(''Forest Processing Waste'', 0.05), (''Logging Residues'', 0.05),
         (''Other Forest Waste'', 0.10), (''Small-Diameter Trees'', 0.05)]),
     (''Biochemicals & Materials'',
        [(''Forest Processing Waste'', 0.05), (''Logging Residues'', 0.05),
         (''Other Forest Waste'', 0.05), (''Small-Diameter Trees'', 0.15)])]"

record sankey_state =
  sources :: "nat list"
  targets :: "nat list"
  link_values :: "real list"  \<comment> \<open>the list \<open>values\<close> of the source\<close>
  end_use_totals :: "(string, real) dict"

text \<open>Lines 81--83 (\<open>sources = []\<close> etc.) and line 114 (\<open>{end_use: 0 ...}\<close>).\<close>

definition init_state :: "end_use_table \<Rightarrow> sankey_state" where
  "init_state eus =
     \<lparr>sources = [], targets = [], link_values = [], end_use_totals = map (\<lambda>(e, _). (e, 0)) eus\<rparr>"

text \<open>
  The inner loop (lines 118--125) for resource number \<open>i\<close> of \<open>n\<close>; \<open>j\<close> is the
  index that \<open>enumerate(end_uses.items())\<close> gives the current end use.
\<close>

fun inner_loop ::
  "nat \<Rightarrow> nat \<Rightarrow> string \<Rightarrow> real \<Rightarrow> nat \<Rightarrow> end_use_table \<Rightarrow> sankey_state \<Rightarrow> py_error + sankey_state" where
  "inner_loop n i resource total_amount j [] st = Inr st"
| "inner_loop n i resource total_amount j ((end_use, allocations) # rest) st =
     (case dict_getitem allocations resource of
        Inl e \<Rightarrow> Inl e
      | Inr allocation_pct \<Rightarrow>
          (let flow_amount = total_amount * allocation_pct in
           case dict_iadd (end_use_totals st) end_use flow_amount of
             Inl e \<Rightarrow> Inl e
           | Inr eut \<Rightarrow>
               inner_loop n i resource total_amount (Suc j) rest
                 (st\<lparr>end_use_totals := eut,
                     sources := sources st @ [i],
                     targets := targets st @ [n + j],
                     link_values := link_values st @ [flow_amount]\<rparr>)))"

text \<open>The outer loop (line 116), over \<open>enumerate(resource_totals.items())\<close>.\<close>

fun outer_loop ::
  "end_use_table \<Rightarrow> nat \<Rightarrow> nat \<Rightarrow> (string, real) dict \<Rightarrow> sankey_state \<Rightarrow> py_error + sankey_state" where
  "outer_loop eus n i [] st = Inr st"
| "outer_loop eus n i ((resource, total_amount) # rest) st =
     (case inner_loop n i resource total_amount 0 eus st of
        Inl e \<Rightarrow> Inl e
      | Inr st' \<Rightarrow> outer_loop eus n (Suc i) rest st')"

definition allocate :: "(string, real) dict \<Rightarrow> end_use_table \<Rightarrow> py_error + sankey_state" where
  "allocate resource_totals eus =
     outer_loop eus (length resource_totals) 0 resource_totals (init_state eus)"

subsection \<open>Abstract specification\<close>

definition row_complete :: "end_use_table \<Rightarrow> string \<Rightarrow> bool" where
  "row_complete eus r = list_all (\<lambda>(_, a). map_of a r \<noteq> None) eus"

definition dense :: "(string, real) dict \<Rightarrow> end_use_table \<Rightarrow> bool" where
  "dense rt eus = list_all (\<lambda>(r, _). row_complete eus r) rt"

definition first_missing :: "(string, real) dict \<Rightarrow> end_use_table \<Rightarrow> string" where
  "first_missing rt eus = fst (hd (filter (\<lambda>(r, _). \<not> row_complete eus r) rt))"

definition pct :: "(string, real) dict \<Rightarrow> string \<Rightarrow> real" where
  "pct a r = the (map_of a r)"

definition row_edges ::
  "nat \<Rightarrow> nat \<Rightarrow> string \<Rightarrow> real \<Rightarrow> nat \<Rightarrow> end_use_table \<Rightarrow> (nat \<times> nat \<times> real) list" where
  "row_edges n i r t j rows = map (\<lambda>(k, (e, a)). (i, n + k, t * pct a r)) (enumerate j rows)"

definition edges_from ::
  "nat \<Rightarrow> nat \<Rightarrow> (string, real) dict \<Rightarrow> end_use_table \<Rightarrow> (nat \<times> nat \<times> real) list" where
  "edges_from n i rows eus = concat (map (\<lambda>(k, (r, t)). row_edges n k r t 0 eus) (enumerate i rows))"

definition flow_edges :: "(string, real) dict \<Rightarrow> end_use_table \<Rightarrow> (nat \<times> nat \<times> real) list" where
  "flow_edges rt eus = edges_from (length rt) 0 rt eus"

definition end_use_total_spec :: "(string, real) dict \<Rightarrow> end_use_table \<Rightarrow> (string, real) dict" where
  "end_use_total_spec rt eus = map (\<lambda>(e, a). (e, \<Sum>(r, t) \<leftarrow> rt. t * pct a r)) eus"

definition spec_state :: "(string, real) dict \<Rightarrow> end_use_table \<Rightarrow> sankey_state" where
  "spec_state rt eus =
     \<lparr>sources = map fst (flow_edges rt eus),
      targets = map (fst \<circ> snd) (flow_edges rt eus),
      link_values = map (snd \<circ> snd) (flow_edges rt eus),
      end_use_totals = end_use_total_spec rt eus\<rparr>"

text \<open>The rows of \<open>resource_totals\<close> of line 29 for the example of the specification.\<close>

definition demo_totals :: "(string, real) dict" where
  "demo_totals =
    [(''Forest Processing Waste'', 100), (''Logging Residues'', 200),
     (''Other Forest Waste'', 50), (''Small-Diameter Trees'', 10)]"

definition keys_ok :: "end_use_table \<Rightarrow> sankey_state \<Rightarrow> bool" where
  "keys_ok rows st \<longleftrightarrow>
     distinct (map fst (end_use_totals st)) \<and> set (map fst rows) \<subseteq> set (map fst (end_use_totals st))"

subsection \<open>The inner loop\<close>

lemma add_into_entry:
  fixes f :: real
  shows "map (\<lambda>(k, x). (k, x + S k)) (map (\<lambda>(k', x). (k', if k' = e then x + f else x)) d)
   = map (\<lambda>(k, x). (k, x + ((if e = k then f else 0) + S k))) d"
  by (induction d) (auto simp: add.assoc)

lemma row_edges_Cons:
  "row_edges n i r t j ((e, a) # rows) = (i, n + j, t * pct a r) # row_edges n i r t (Suc j) rows"
  by (simp add: row_edges_def)

lemma inner_loop_eq:
  assumes "keys_ok rows st"
  shows "inner_loop n i r t j rows st =
    (if row_complete rows r
     then Inr (st\<lparr>end_use_totals :=
                   map (\<lambda>(k, x). (k, x + (\<Sum>(e, a) \<leftarrow> rows. if e = k then t * pct a r else 0)))
                     (end_use_totals st),
                 sources := sources st @ map fst (row_edges n i r t j rows),
                 targets := targets st @ map (fst \<circ> snd) (row_edges n i r t j rows),
                 link_values := link_values st @ map (snd \<circ> snd) (row_edges n i r t j rows)\<rparr>)
     else Inl (KeyError r))"
  using assms
proof (induction rows arbitrary: j st)
  case Nil
  have "map (\<lambda>(k, x). (k, x + 0)) d = d" for d :: "(string, real) dict"
    by (induction d) auto
  then show ?case by (simp add: row_complete_def row_edges_def)
next
  case (Cons row rows)
  obtain e a where row: "row = (e, a)" by (cases row)
  show ?case
  proof (cases "map_of a r")
    case None
    with row show ?thesis by (simp add: row_complete_def dict_getitem_def)
  next
    case (Some p)
    let ?d = "end_use_totals st"
    let ?d' = "map (\<lambda>(k', x). (k', if k' = e then x + t * p else x)) ?d"
    let ?st' = "st\<lparr>end_use_totals := ?d', sources := sources st @ [i],
                   targets := targets st @ [n + j], link_values := link_values st @ [t * p]\<rparr>"
    from Cons.prems row have e: "e \<in> set (map fst ?d)" and dist: "distinct (map fst ?d)"
      by (auto simp: keys_ok_def)
    then have iadd: "dict_iadd ?d e (t * p) = Inr ?d'"
      by (simp add: dict_iadd_existing)
    have keys': "map fst ?d' = map fst ?d"
      by (rule map_fst_map_value)
    with Cons.prems have ok': "keys_ok rows ?st'"
      by (simp add: keys_ok_def del: map_map)
    have pa: "pct a r = p" using Some by (simp add: pct_def)
    have step: "inner_loop n i r t j ((e, a) # rows) st = inner_loop n i r t (Suc j) rows ?st'"
      using Some iadd by (simp add: dict_getitem_def Let_def)
    have rc: "row_complete ((e, a) # rows) r = row_complete rows r"
      using Some by (simp add: row_complete_def)
    show ?thesis
      unfolding row step rc Cons.IH [OF ok', of "Suc j"]
      by (simp add: add_into_entry row_edges_Cons pa comp_def del: map_map cong: if_cong)
  qed
qed

subsection \<open>The outer loop and the refinement theorem\<close>

lemma keys_ok_map_value:
  "keys_ok rows st \<Longrightarrow> end_use_totals st' = map (\<lambda>(k, x). (k, h k x)) (end_use_totals st) \<Longrightarrow>
   keys_ok rows st'"
  by (simp add: keys_ok_def map_fst_map_value del: map_map)

lemma add_twice:
  fixes S1 S2 :: "string \<Rightarrow> real"
  shows "map (\<lambda>(k, x). (k, x + S2 k)) (map (\<lambda>(k, x). (k, x + S1 k)) d)
   = map (\<lambda>(k, x). (k, x + (S1 k + S2 k))) d"
  by (induction d) (auto simp: add.assoc)

lemma edges_from_Cons:
  "edges_from n i ((r, t) # rows) eus = row_edges n i r t 0 eus @ edges_from n (Suc i) rows eus"
  by (simp add: edges_from_def)

lemma outer_loop_eq:
  assumes "keys_ok eus st"
  shows "outer_loop eus n i rows st =
    (if dense rows eus
     then Inr (st\<lparr>end_use_totals :=
                   map (\<lambda>(k, x). (k, x + (\<Sum>(r, t) \<leftarrow> rows. \<Sum>(e, a) \<leftarrow> eus.
                                              if e = k then t * pct a r else 0)))
                     (end_use_totals st),
                 sources := sources st @ map fst (edges_from n i rows eus),
                 targets := targets st @ map (fst \<circ> snd) (edges_from n i rows eus),
                 link_values := link_values st @ map (snd \<circ> snd) (edges_from n i rows eus)\<rparr>)
     else Inl (KeyError (first_missing rows eus)))"
  using assms
proof (induction rows arbitrary: i st)
  case Nil
  have "map (\<lambda>(k, x). (k, x + 0)) d = d" for d :: "(string, real) dict"
    by (induction d) auto
  then show ?case by (simp add: dense_def edges_from_def)
next
  case (Cons rt rows)
  obtain r t where rt: "rt = (r, t)" by (cases rt)
  show ?case
  proof (cases "row_complete eus r")
    case False
    with Cons.prems rt show ?thesis
      by (simp add: inner_loop_eq dense_def first_missing_def)
  next
    case True
    let ?S1 = "\<lambda>k. \<Sum>(e, a) \<leftarrow> eus. if e = k then t * pct a r else 0"
    let ?st1 = "st\<lparr>end_use_totals := map (\<lambda>(k, x). (k, x + ?S1 k)) (end_use_totals st),
                 sources := sources st @ map fst (row_edges n i r t 0 eus),
                 targets := targets st @ map (fst \<circ> snd) (row_edges n i r t 0 eus),
                 link_values := link_values st @ map (snd \<circ> snd) (row_edges n i r t 0 eus)\<rparr>"
    have inner: "inner_loop n i r t 0 eus st = Inr ?st1"
      using True Cons.prems by (simp add: inner_loop_eq)
    have ok1: "keys_ok eus ?st1"
      using keys_ok_map_value [OF Cons.prems, where h = "\<lambda>k x. x + ?S1 k" and st' = ?st1]
      by simp
    have step: "outer_loop eus n i ((r, t) # rows) st = outer_loop eus n (Suc i) rows ?st1"
      using inner by simp
    have d: "dense ((r, t) # rows) eus = dense rows eus"
      and fm: "first_missing ((r, t) # rows) eus = first_missing rows eus"
      using True by (simp_all add: dense_def first_missing_def)
    show ?thesis
      unfolding rt step d fm Cons.IH [OF ok1, of "Suc i"]
      by (simp add: add_twice edges_from_Cons del: map_map)
  qed
qed

lemma init_keys_ok: "distinct (map fst eus) \<Longrightarrow> keys_ok eus (init_state eus)"
proof -
  have "map fst (map (\<lambda>(e, _). (e, 0 :: real)) eus) = map fst eus" for eus :: end_use_table
    by (induction eus) auto
  then show "distinct (map fst eus) \<Longrightarrow> keys_ok eus (init_state eus)"
    by (simp add: keys_ok_def init_state_def del: map_map)
qed

lemma select_row_share:
  assumes "distinct (map fst eus)" and "(e, a) \<in> set eus"
  shows "(\<Sum>(e', a') \<leftarrow> eus. if e' = e then t * pct a' r else 0) = t * pct a r"
  using sum_list_select_entry [OF assms, of "\<lambda>a'. t * pct a' r"]
  by (simp add: case_prod_unfold)

lemma init_totals_accumulated:
  assumes "distinct (map fst eus)"
  shows "map (\<lambda>(k, x). (k, x + (\<Sum>(r, t) \<leftarrow> rt. \<Sum>(e, a) \<leftarrow> eus. if e = k then t * pct a r else 0)))
           (end_use_totals (init_state eus))
         = end_use_total_spec rt eus"
proof -
  have "(\<Sum>(r, t) \<leftarrow> rt. \<Sum>(e', a') \<leftarrow> eus. if e' = e then t * pct a' r else 0)
        = (\<Sum>(r, t) \<leftarrow> rt. t * pct a r)" if "(e, a) \<in> set eus" for e a
    using select_row_share [OF assms that] by simp
  then show ?thesis
    by (auto simp: init_state_def end_use_total_spec_def intro!: map_cong)
qed

lemma allocate_eq:
  assumes "distinct (map fst eus)"
  shows "allocate rt eus =
    (if dense rt eus then Inr (spec_state rt eus) else Inl (KeyError (first_missing rt eus)))"
  using outer_loop_eq [OF init_keys_ok [OF assms], of "length rt" 0 rt]
    init_totals_accumulated [OF assms, of rt]
  by (simp add: allocate_def flow_edges_def init_state_def spec_state_def del: map_map)

lemma allocate_Inr:
  "distinct (map fst eus) \<Longrightarrow> allocate rt eus = Inr st \<Longrightarrow> dense rt eus \<and> st = spec_state rt eus"
  by (simp add: allocate_eq split: if_splits)

subsection \<open>Structure of the links\<close>

lemma length_row_edges [simp]: "length (row_edges n i r t j rows) = length rows"
  by (simp add: row_edges_def)

lemma row_edges_values: "map (snd \<circ> snd) (row_edges n i r t j rows) = map (\<lambda>(e, a). t * pct a r) rows"
  by (induction rows arbitrary: j) (auto simp: row_edges_def)

lemma row_edges_nth:
  "k < length rows \<Longrightarrow> row_edges n i r t j rows ! k = (i, n + j + k, t * pct (snd (rows ! k)) r)"
  by (simp add: row_edges_def nth_enumerate_eq case_prod_beta)

lemma edges_from_Nil [simp]: "edges_from n i [] eus = []"
  by (simp add: edges_from_def)

lemma length_edges_from: "length (edges_from n i rows eus) = length rows * length eus"
proof (induction rows arbitrary: i)
  case Nil
  then show ?case by simp
next
  case (Cons rt rows)
  then show ?case by (cases rt) (simp add: edges_from_Cons)
qed

lemma edges_from_nth:
  assumes k: "k < length rows * length eus"
  shows "edges_from n i rows eus ! k =
    (i + k div length eus, n + k mod length eus,
     snd (rows ! (k div length eus)) * pct (snd (eus ! (k mod length eus))) (fst (rows ! (k div length eus))))"
proof -
  let ?m = "length eus"
  let ?blocks = "map (\<lambda>(k, (r, t)). row_edges n k r t 0 eus) (enumerate i rows)"
  have m: "0 < ?m" using k by (cases ?m) auto
  have q: "k div ?m < length rows" using k by (simp add: less_mult_imp_div_less)
  have blocks: "\<forall>xs \<in> set ?blocks. length xs = ?m" by auto
  have "edges_from n i rows eus ! k = ?blocks ! (k div ?m) ! (k mod ?m)"
    unfolding edges_from_def using nth_concat_blocks [OF blocks] k by simp
  also have "\<dots> = row_edges n (i + k div ?m) (fst (rows ! (k div ?m))) (snd (rows ! (k div ?m))) 0 eus
                   ! (k mod ?m)"
    using q by (simp add: nth_enumerate_eq case_prod_beta)
  also have "\<dots> = (i + k div ?m, n + k mod ?m,
                   snd (rows ! (k div ?m)) * pct (snd (eus ! (k mod ?m))) (fst (rows ! (k div ?m))))"
    using m by (simp add: row_edges_nth)
  finally show ?thesis .
qed

lemma filter_row_edges_source:
  "filter (\<lambda>e. fst e = s) (row_edges n i r t j rows) = (if i = s then row_edges n i r t j rows else [])"
  by (induction rows arbitrary: j) (auto simp: row_edges_def)

lemma filter_edges_from_source:
  "filter (\<lambda>e. fst e = s) (edges_from n i rows eus) =
     (if i \<le> s \<and> s < i + length rows
      then row_edges n s (fst (rows ! (s - i))) (snd (rows ! (s - i))) 0 eus else [])"
proof (induction rows arbitrary: i)
  case Nil
  then show ?case by auto
next
  case (Cons rt rows)
  obtain r t where rt: "rt = (r, t)" by (cases rt)
  show ?case
    using Cons.IH [of "Suc i"]
    by (auto simp: rt edges_from_Cons filter_row_edges_source nth_Cons')
qed

lemma filter_row_edges_target:
  "filter (\<lambda>e. fst (snd e) = n + j) (row_edges n i r t j0 rows) =
     (if j0 \<le> j \<and> j < j0 + length rows then [(i, n + j, t * pct (snd (rows ! (j - j0))) r)] else [])"
proof (induction rows arbitrary: j0)
  case Nil
  then show ?case by (simp add: row_edges_def)
next
  case (Cons row rows)
  obtain e a where row: "row = (e, a)" by (cases row)
  show ?case
    using Cons.IH [of "Suc j0"]
    by (auto simp: row row_edges_Cons nth_Cons')
qed

lemma filter_edges_from_target:
  "j < length eus \<Longrightarrow>
   filter (\<lambda>e. fst (snd e) = n + j) (edges_from n i rows eus) =
     map (\<lambda>(k, (r, t)). (k, n + j, t * pct (snd (eus ! j)) r)) (enumerate i rows)"
proof (induction rows arbitrary: i)
  case Nil
  then show ?case by simp
next
  case (Cons rt rows)
  then show ?case
    by (cases rt) (simp add: edges_from_Cons filter_row_edges_target)
qed

lemma target_values_sum:
  "j < length eus \<Longrightarrow>
   sum_list (map (snd \<circ> snd) (filter (\<lambda>e. fst (snd e) = n + j) (edges_from n i rows eus)))
   = (\<Sum>(r, t) \<leftarrow> rows. t * pct (snd (eus ! j)) r)"
proof (induction rows arbitrary: i)
  case Nil
  then show ?case by simp
next
  case (Cons rt rows)
  then show ?case
    by (cases rt) (simp add: edges_from_Cons filter_row_edges_target)
qed

lemma zip_sources_values:
  "zip (sources (spec_state rt eus)) (link_values (spec_state rt eus))
   = map (\<lambda>e. (fst e, snd (snd e))) (flow_edges rt eus)"
  by (simp add: spec_state_def zip_map_map zip_same_conv_map)

lemma zip_targets_values:
  "zip (targets (spec_state rt eus)) (link_values (spec_state rt eus))
   = map (\<lambda>e. (fst (snd e), snd (snd e))) (flow_edges rt eus)"
  by (simp add: spec_state_def zip_map_map zip_same_conv_map)

lemma end_use_total_spec_lookup:
  assumes "distinct (map fst eus)" and "j < length eus"
  shows "map_of (end_use_total_spec rt eus) (fst (eus ! j))
         = Some (\<Sum>(r, t) \<leftarrow> rt. t * pct (snd (eus ! j)) r)"
proof -
  have "map_of eus (fst (eus ! j)) = Some (snd (eus ! j))"
    using assms by (simp add: map_of_eq_Some_iff)
  then show ?thesis
    by (simp add: end_use_total_spec_def map_of_map case_prod_beta)
qed

lemma spec_state_layout:
  "length (sources (spec_state rt eus)) = length rt * length eus \<and>
   length (targets (spec_state rt eus)) = length rt * length eus \<and>
   length (link_values (spec_state rt eus)) = length rt * length eus \<and>
   (\<forall>k < length rt * length eus.
      sources (spec_state rt eus) ! k = k div length eus \<and>
      targets (spec_state rt eus) ! k = length rt + k mod length eus \<and>
      link_values (spec_state rt eus) ! k = snd (rt ! (k div length eus)) *
                           pct (snd (eus ! (k mod length eus))) (fst (rt ! (k div length eus))))"
proof -
  have len: "length (flow_edges rt eus) = length rt * length eus"
    by (simp add: flow_edges_def length_edges_from)
  then show ?thesis
    by (simp add: spec_state_def flow_edges_def edges_from_nth)
qed

subsection \<open>The configured table\<close>

lemma end_uses_distinct: "distinct (map fst end_uses)"
  by (simp add: end_uses_def)

lemma end_uses_row_sum:
  assumes "row_complete end_uses r"
  shows "(\<Sum>(e, a) \<leftarrow> end_uses. pct a r) = 1"
proof -
  have "r \<in> {''Forest Processing Waste'', ''Logging Residues'', ''Other Forest Waste'',
              ''Small-Diameter Trees''}"
    using assms by (auto simp: row_complete_def end_uses_def split: if_splits)
  then show ?thesis
    by (simp only: insert_iff empty_iff simp_thms) (elim disjE; simp add: end_uses_def pct_def)
qed

lemma end_use_total_spec_sum:
  assumes d: "dense rt end_uses"
  shows "sum_list (map snd (end_use_total_spec rt end_uses)) = sum_list (map snd rt)"
proof -
  have "sum_list (map snd (end_use_total_spec rt end_uses))
        = (\<Sum>p \<leftarrow> end_uses. \<Sum>q \<leftarrow> rt. snd q * pct (snd p) (fst q))"
    by (simp add: end_use_total_spec_def case_prod_unfold comp_def)
  also have "\<dots> = (\<Sum>q \<leftarrow> rt. \<Sum>p \<leftarrow> end_uses. snd q * pct (snd p) (fst q))"
    by (rule sum_list_swap)
  also have "\<dots> = (\<Sum>q \<leftarrow> rt. snd q * (\<Sum>p \<leftarrow> end_uses. pct (snd p) (fst q)))"
    by (simp only: sum_list_const_mult)
  also have "\<dots> = (\<Sum>q \<leftarrow> rt. snd q)"
  proof (rule arg_cong [where f = sum_list], rule map_cong [OF refl])
    fix q assume "q \<in> set rt"
    with d have "row_complete end_uses (fst q)"
      by (auto simp: dense_def list_all_iff case_prod_beta)
    then have "(\<Sum>p \<leftarrow> end_uses. pct (snd p) (fst q)) = 1"
      using end_uses_row_sum by (simp add: case_prod_unfold)
    then show "snd q * (\<Sum>p \<leftarrow> end_uses. pct (snd p) (fst q)) = snd q" by simp
  qed
  finally show ?thesis .
qed

lemma allocate_single_LR:
  "allocate [(''Logging Residues'', 200)] end_uses =
     Inr \<lparr>sources = [0, 0, 0, 0, 0, 0], targets = [1, 2, 3, 4, 5, 6],
          link_values = [80, 40, 30, 30, 10, 10],
          end_use_totals =
            [(''Bioenergy & Electricity'', 80), (''Heat & Thermal Energy'', 40),
             (''Wood Pellets'', 30), (''Biofuels (Ethanol/Biodiesel)'', 30),
             (''Biochar & Soil Amendments'', 10), (''Biochemicals & Materials'', 10)]\<rparr>"
  by (simp add: allocate_def init_state_def end_uses_def dict_iadd_def dict_getitem_def)

subsection \<open>Properties\<close>

text \<open>
  C1 (refinement). The nested loop of lines 114--125 implements the abstract allocation:
  for a table whose end-use keys are distinct (as the keys of a dict are), it returns a
  state exactly when every row has an entry for every resource category, and that state
  holds the specified links in loop order and the specified end-use totals.
\<close>

theorem allocate_refines:
  assumes "distinct (map fst eus)"
  shows "allocate rt eus = Inr st \<longleftrightarrow> dense rt eus \<and> st = spec_state rt eus"
  using allocate_eq [OF assms] by auto

theorem allocate_refines_witness:
  "dense [(''Logging Residues'', 200)] end_uses \<and>
   spec_state [(''Logging Residues'', 200)] end_uses =
     \<lparr>sources = [0, 0, 0, 0, 0, 0], targets = [1, 2, 3, 4, 5, 6],
      link_values = [80, 40, 30, 30, 10, 10],
      end_use_totals =
        [(''Bioenergy & Electricity'', 80), (''Heat & Thermal Energy'', 40),
         (''Wood Pellets'', 30), (''Biofuels (Ethanol/Biodiesel)'', 30),
         (''Biochar & Soil Amendments'', 10), (''Biochemicals & Materials'', 10)]\<rparr>"
  using allocate_refines [OF end_uses_distinct] allocate_single_LR by metis

text \<open>
  C2 (error). A resource category that some row of the table lacks is a fatal error, not
  a silently zero-valued link: the run raises \<open>KeyError\<close> naming a category of
  \<open>resource_totals\<close> that a row of the table has no entry for.
\<close>

theorem allocate_missing_key:
  assumes "distinct (map fst eus)" and "\<not> dense rt eus"
  shows "\<exists>r t e a. allocate rt eus = Inl (KeyError r) \<and> (r, t) \<in> set rt \<and>
                 (e, a) \<in> set eus \<and> map_of a r = None"
proof -
  let ?bad = "filter (\<lambda>(r, _). \<not> row_complete eus r) rt"
  have ne: "?bad \<noteq> []"
    using assms(2) by (auto simp: dense_def list_all_iff filter_empty_conv)
  then have mem: "hd ?bad \<in> set rt" and inc: "\<not> row_complete eus (fst (hd ?bad))"
    using hd_in_set [OF ne] by (auto simp: case_prod_beta)
  from inc obtain e a where "(e, a) \<in> set eus" and "map_of a (fst (hd ?bad)) = None"
    by (auto simp: row_complete_def list_all_iff)
  moreover have "allocate rt eus = Inl (KeyError (fst (hd ?bad)))"
    using allocate_eq [OF assms(1)] assms(2) by (simp add: first_missing_def)
  ultimately show ?thesis
    using mem by (metis prod.collapse)
qed

theorem allocate_missing_key_witness:
  "allocate [(''Logging Residues'', 200), (''Bark'', 7)] end_uses = Inl (KeyError ''Bark'')"
proof -
  have nd: "\<not> dense [(''Logging Residues'', 200), (''Bark'', 7)] end_uses"
    by (simp add: dense_def row_complete_def end_uses_def)
  show ?thesis
    using allocate_missing_key [OF end_uses_distinct nd] by (auto simp: end_uses_def)
qed

text \<open>
  C3 (functional; property 1 of the specification). The links leaving resource node
  \<open>i\<close> carry together that category's total times the sum of its fractions in the
  table.
\<close>

theorem allocate_source_sum:
  assumes "distinct (map fst eus)" and "allocate rt eus = Inr st" and "i < length rt"
  shows "sum_list (map snd (filter (\<lambda>(s, v). s = i) (zip (sources st) (link_values st))))
         = snd (rt ! i) * (\<Sum>(e, a) \<leftarrow> eus. pct a (fst (rt ! i)))"
proof -
  from allocate_Inr [OF assms(1,2)] have st: "st = spec_state rt eus" by simp
  let ?row = "row_edges (length rt) i (fst (rt ! i)) (snd (rt ! i)) 0 eus"
  have "filter (\<lambda>(s, v). s = i) (zip (sources st) (link_values st))
        = map (\<lambda>e. (fst e, snd (snd e))) (filter (\<lambda>e. fst e = i) (flow_edges rt eus))"
    by (simp add: st zip_sources_values filter_map comp_def)
  also have "filter (\<lambda>e. fst e = i) (flow_edges rt eus) = ?row"
    using assms(3) by (simp add: flow_edges_def filter_edges_from_source)
  finally have "sum_list (map snd (filter (\<lambda>(s, v). s = i) (zip (sources st) (link_values st))))
                = sum_list (map (snd \<circ> snd) ?row)"
    by (simp add: comp_def)
  also have "\<dots> = (\<Sum>(e, a) \<leftarrow> eus. snd (rt ! i) * pct a (fst (rt ! i)))"
    by (simp only: row_edges_values)
  also have "\<dots> = snd (rt ! i) * (\<Sum>(e, a) \<leftarrow> eus. pct a (fst (rt ! i)))"
    by (rule sum_list_mult_pairs)
  finally show ?thesis .
qed

theorem allocate_source_sum_witness:
  "\<exists>st. allocate [(''Logging Residues'', 200)] end_uses = Inr st \<and>
        sum_list (map snd (filter (\<lambda>(s, v). s = 0) (zip (sources st) (link_values st)))) = 200"
proof -
  let ?rt = "[(''Logging Residues'', 200 :: real)]"
  obtain st where st: "allocate ?rt end_uses = Inr st"
    using allocate_single_LR by blast
  have "sum_list (map snd (filter (\<lambda>(s, v). s = 0) (zip (sources st) (link_values st))))
        = snd (?rt ! 0) * (\<Sum>(e, a) \<leftarrow> end_uses. pct a (fst (?rt ! 0)))"
    using allocate_source_sum [OF end_uses_distinct st, of 0] by simp
  also have "\<dots> = 200" by (simp add: end_uses_def pct_def)
  finally show ?thesis using st by blast
qed

text \<open>
  C4 (functional; property 2 of the specification). After the loop, the total of end
  use number \<open>j\<close> equals the sum of the values of the links whose target is that
  end use's node (\<open>len(resource_totals) + j\<close>).
\<close>

theorem allocate_end_use_total:
  assumes "distinct (map fst eus)" and "allocate rt eus = Inr st" and "j < length eus"
  shows "map_of (end_use_totals st) (fst (eus ! j)) =
         Some (sum_list (map snd (filter (\<lambda>(tg, v). tg = length rt + j)
                                   (zip (targets st) (link_values st)))))"
proof -
  from allocate_Inr [OF assms(1,2)] have st: "st = spec_state rt eus" by simp
  have "filter (\<lambda>(tg, v). tg = length rt + j) (zip (targets st) (link_values st))
        = map (\<lambda>e. (fst (snd e), snd (snd e)))
            (filter (\<lambda>e. fst (snd e) = length rt + j) (flow_edges rt eus))"
    by (simp add: st zip_targets_values filter_map comp_def case_prod_beta)
  then have "sum_list (map snd (filter (\<lambda>(tg, v). tg = length rt + j)
                                   (zip (targets st) (link_values st))))
             = sum_list (map (snd \<circ> snd) (filter (\<lambda>e. fst (snd e) = length rt + j) (flow_edges rt eus)))"
    by (simp add: comp_def)
  also have "\<dots> = (\<Sum>(r, t) \<leftarrow> rt. t * pct (snd (eus ! j)) r)"
    using target_values_sum [OF assms(3)] by (simp add: flow_edges_def)
  finally have "sum_list (map snd (filter (\<lambda>(tg, v). tg = length rt + j)
                                     (zip (targets st) (link_values st))))
                = (\<Sum>(r, t) \<leftarrow> rt. t * pct (snd (eus ! j)) r)" .
  then show ?thesis
    using end_use_total_spec_lookup [OF assms(1,3), of rt] by (simp add: st spec_state_def)
qed

theorem allocate_end_use_total_witness:
  "\<exists>st. allocate [(''Logging Residues'', 200)] end_uses = Inr st \<and>
        map_of (end_use_totals st) ''Wood Pellets'' =
          Some (sum_list (map snd (filter (\<lambda>(tg, v). tg = 3) (zip (targets st) (link_values st)))))"
proof -
  obtain st where st: "allocate [(''Logging Residues'', 200)] end_uses = Inr st"
    using allocate_single_LR by blast
  have j: "(2::nat) < length end_uses" by (simp add: end_uses_def)
  have "fst (end_uses ! 2) = ''Wood Pellets''" by (simp add: end_uses_def)
  with allocate_end_use_total [OF end_uses_distinct st j] st show ?thesis
    by (auto simp: numeral_3_eq_3)
qed

text \<open>
  C5 (bounds). The link lists have one entry per (resource, end use) pair, in the loop's
  order: link \<open>k\<close> goes from resource node \<open>k div m\<close> to end-use node
  \<open>n + k mod m\<close> (for \<open>n\<close> resources and \<open>m\<close> end uses) and carries that
  resource's total times that end use's fraction. Every index the figure receives is
  therefore a valid node index, and the node order the renderer relies on is the loop's.
\<close>

theorem allocate_link_layout:
  assumes "distinct (map fst eus)" and "allocate rt eus = Inr st"
  shows "length (sources st) = length rt * length eus \<and>
         length (targets st) = length rt * length eus \<and>
         length (link_values st) = length rt * length eus \<and>
         (\<forall>k < length rt * length eus.
            sources st ! k = k div length eus \<and>
            targets st ! k = length rt + k mod length eus \<and>
            link_values st ! k = snd (rt ! (k div length eus)) *
                                 pct (snd (eus ! (k mod length eus))) (fst (rt ! (k div length eus))))"
  using allocate_Inr [OF assms] spec_state_layout [of rt eus] by simp

theorem allocate_link_layout_witness:
  "\<exists>st. allocate [(''Logging Residues'', 200)] end_uses = Inr st \<and>
        length (targets st) = 6 \<and> targets st ! 5 = 6 \<and> link_values st ! 5 = 10"
proof -
  obtain st where st: "allocate [(''Logging Residues'', 200)] end_uses = Inr st"
    using allocate_single_LR by blast
  from allocate_link_layout [OF end_uses_distinct st] st show ?thesis
    by (auto simp: end_uses_def pct_def)
qed

text \<open>
  C6 (invariant). With the configured table every category's fractions sum to exactly 1,
  so no mass is left unallocated: whenever the allocation succeeds, the end-use totals
  add up to the grand total of \<open>resource_totals\<close> (in exact arithmetic).
\<close>

theorem allocate_conserves_total:
  assumes "allocate rt end_uses = Inr st"
  shows "sum_list (map snd (end_use_totals st)) = sum_list (map snd rt)"
proof -
  from allocate_Inr [OF end_uses_distinct assms]
  have "st = spec_state rt end_uses" and "dense rt end_uses" by simp_all
  then show ?thesis by (simp add: spec_state_def end_use_total_spec_sum)
qed

theorem allocate_conserves_total_witness:
  "\<exists>st. allocate [(''Logging Residues'', 200)] end_uses = Inr st \<and>
        sum_list (map snd (end_use_totals st)) = 200"
proof -
  obtain st where st: "allocate [(''Logging Residues'', 200)] end_uses = Inr st"
    using allocate_single_LR by blast
  from allocate_conserves_total [OF st] st show ?thesis by auto
qed

end
