(* ===== verification/Sankey.thy ===== *)
theory Sankey
  imports Loader Allocation
begin

text \<open>
  The flow renderer of \<open>src/create_sankey_diagram.py\<close> and the script as a whole.
  Lines 88--107 build the node list (resources first, then end uses) and the node colours
  from two colour dicts, which raise \<open>KeyError\<close> for a label without a colour;
  lines 129--135 print each end use's share of the grand total; lines 138--156 pass the
  nodes, their hover values (\<open>customdata\<close>, line 145) and the link lists of the
  allocation loop to \<open>go.Sankey\<close>. The figure is modelled by the record
  \<open>sankey_figure\<close> of exactly the data handed to Plotly; its styling is not modelled.

  \<open>run_sankey\<close> composes the script in the code's order: load the files, aggregate with
  \<open>groupby_sum\<close>, build labels and colours (a \<open>KeyError\<close> there ends the run before
  the loop), run \<open>allocate\<close>, compute the percentages of the end-use report (which
  raise \<open>ZeroDivisionError\<close> on an empty dataset), and build the figure.
\<close>

definition resource_colors :: "(string, string) dict" where
  "resource_colors =
    [(''Forest Processing Waste'', ''#FF6B6B''), (''Logging Residues'', ''#4ECDC4''),
     (''Other Forest Waste'', ''#95E1D3''), (''Small-Diameter Trees'', ''#F38181'')]"

definition end_use_colors :: "(string, string) dict" where
  "end_use_colors =
    [(''Bioenergy & Electricity'', ''#FFA07A''), (''Heat & Thermal Energy'', ''#FFD700''),
     (''Wood Pellets'', ''#DDA15E''), (''Biofuels (Ethanol/Biodiesel)'', ''#90EE90''),
     (''Biochar & Soil Amendments'', ''#8B4513''), (''Biochemicals & Materials'', ''#9370DB'')]"

definition node_labels :: "(string, real) dict \<Rightarrow> end_use_table \<Rightarrow> string list" where
  "node_labels resource_totals eus = map fst resource_totals @ map fst eus"

definition node_colors :: "(string, real) dict \<Rightarrow> end_use_table \<Rightarrow> py_error + string list" where
  "node_colors resource_totals eus =
     (case map_raise (dict_getitem resource_colors) (map fst resource_totals) of
        Inl e \<Rightarrow> Inl e
      | Inr rcs \<Rightarrow>
          (case map_raise (dict_getitem end_use_colors) (map fst eus) of
             Inl e \<Rightarrow> Inl e
           | Inr ecs \<Rightarrow> Inr (rcs @ ecs)))"

text \<open>\<open>resource_totals.get(label, end_use_totals.get(label, 0))\<close> (line 145).\<close>

definition node_hover :: "(string, real) dict \<Rightarrow> (string, real) dict \<Rightarrow> string \<Rightarrow> real" where
  "node_hover resource_totals eut label = dict_get resource_totals label (dict_get eut label 0)"

text \<open>
  \<open>(total / resource_totals.sum()) * 100\<close> (line 133). When \<open>resource_totals\<close> is
  empty (every file holds only its header), pandas sums the empty object-typed series to the
  Python int \<open>0\<close>, and every end-use total is still the int \<open>0\<close> of line 114, so the
  division is \<open>0 / 0\<close> on ints and raises \<open>ZeroDivisionError\<close>. Otherwise both operands
  are numpy floats, and a zero divisor gives \<open>nan\<close> or \<open>inf\<close> with a warning; both
  are \<open>None\<close> here.
\<close>

definition end_use_percent :: "(string, real) dict \<Rightarrow> real \<Rightarrow> py_error + real option" where
  "end_use_percent resource_totals amt =
     (if resource_totals = [] then Inl (ZeroDivisionError ''division by zero'')
      else (let grand = sum_list (map snd resource_totals)
            in Inr (if grand = 0 then None else Some (amt / grand * 100))))"

text \<open>The loop of lines 132--134 over \<open>end_use_totals.items()\<close>.\<close>

definition end_use_report ::
  "(string, real) dict \<Rightarrow> (string, real) dict \<Rightarrow> py_error + (string \<times> real \<times> real option) list" where
  "end_use_report resource_totals eut =
     map_raise (\<lambda>(end_use, amt).
         case end_use_percent resource_totals amt of
           Inl e \<Rightarrow> Inl e
         | Inr percent \<Rightarrow> Inr (end_use, amt, percent)) eut"

record sankey_figure =
  node_label :: "string list"
  node_color :: "string list"
  node_customdata :: "real list"
  link_source :: "nat list"
  link_target :: "nat list"
  link_value :: "real list"

definition build_figure ::
  "(string, real) dict \<Rightarrow> string list \<Rightarrow> string list \<Rightarrow> sankey_state \<Rightarrow> sankey_figure" where
  "build_figure resource_totals labels colors st =
     \<lparr>node_label = labels, node_color = colors,
      node_customdata = map (node_hover resource_totals (end_use_totals st)) labels,
      link_source = sources st, link_target = targets st, link_value = link_values st\<rparr>"

definition run_sankey :: "filesystem \<Rightarrow> py_error + sankey_figure" where
  "run_sankey fs =
     (case load_combined fs data_files of
        Inl e \<Rightarrow> Inl e
      | Inr combined_df \<Rightarrow>
          (let resource_totals = groupby_sum combined_df;
               labels = node_labels resource_totals end_uses
           in case node_colors resource_totals end_uses of
                Inl e \<Rightarrow> Inl e
              | Inr colors \<Rightarrow>
                  (case allocate resource_totals end_uses of
                     Inl e \<Rightarrow> Inl e
                   | Inr st \<Rightarrow>
                       (case end_use_report resource_totals (end_use_totals st) of
                          Inl e \<Rightarrow> Inl e
                        | Inr report \<Rightarrow> Inr (build_figure resource_totals labels colors st)))))"

subsection \<open>The configured categories\<close>

definition category_names :: "string list" where
  "category_names = map fst data_files"

lemma category_names_eq:
  "category_names = [''Forest Processing Waste'', ''Logging Residues'', ''Other Forest Waste'',
                     ''Small-Diameter Trees'']"
  by (simp add: category_names_def data_files_def)

lemma category_names_disj:
  "r \<in> set category_names \<Longrightarrow>
   r = ''Forest Processing Waste'' \<or> r = ''Logging Residues'' \<or> r = ''Other Forest Waste'' \<or>
   r = ''Small-Diameter Trees''"
  by (simp add: category_names_eq)

lemma category_cases:
  assumes "r \<in> set category_names"
  obtains "r = ''Forest Processing Waste''" | "r = ''Logging Residues''"
    | "r = ''Other Forest Waste''" | "r = ''Small-Diameter Trees''"
  using category_names_disj [OF assms] by (elim disjE)

lemma category_complete: "r \<in> set category_names \<Longrightarrow> row_complete end_uses r"
  by (erule category_cases) (simp_all add: row_complete_def end_uses_def del: not_None_eq)

lemma category_color: "r \<in> set category_names \<Longrightarrow> map_of resource_colors r \<noteq> None"
  by (erule category_cases) (simp_all add: resource_colors_def del: not_None_eq)

lemma end_use_color: "e \<in> set (map fst end_uses) \<Longrightarrow> map_of end_use_colors e \<noteq> None"
proof -
  assume "e \<in> set (map fst end_uses)"
  then have "e \<in> set [''Bioenergy & Electricity'', ''Heat & Thermal Energy'', ''Wood Pellets'',
                     ''Biofuels (Ethanol/Biodiesel)'', ''Biochar & Soil Amendments'',
                     ''Biochemicals & Materials'']"
    by (simp add: end_uses_def)
  then show ?thesis
    by (simp only: set_simps insert_iff empty_iff)
      (elim disjE; simp add: end_use_colors_def del: not_None_eq)
qed

lemma node_colors_ok:
  assumes "set (map fst rt) \<subseteq> set category_names"
  shows "node_colors rt end_uses =
    Inr (map (\<lambda>k. the (map_of resource_colors k)) (map fst rt) @
         map (\<lambda>k. the (map_of end_use_colors k)) (map fst end_uses))"
proof -
  have "map_raise (dict_getitem resource_colors) (map fst rt) =
        Inr (map (\<lambda>k. the (map_of resource_colors k)) (map fst rt))"
    by (rule map_raise_Inr) (use assms category_color in \<open>auto simp: dict_getitem_def split: option.splits\<close>)
  moreover have "map_raise (dict_getitem end_use_colors) (map fst end_uses) =
        Inr (map (\<lambda>k. the (map_of end_use_colors k)) (map fst end_uses))"
    by (rule map_raise_Inr) (use end_use_color in \<open>auto simp: dict_getitem_def split: option.splits\<close>)
  ultimately show ?thesis by (simp add: node_colors_def)
qed

lemma dense_categories: "set (map fst rt) \<subseteq> set category_names \<Longrightarrow> dense rt end_uses"
  using category_complete by (auto simp: dense_def list_all_iff)

lemma resource_totals_categories:
  "load_combined fs data_files = Inr rows \<Longrightarrow> set (map fst (groupby_sum rows)) \<subseteq> set category_names"
  using loaded_categories [of fs data_files rows]
  by (simp add: groupby_sum_keys category_names_def)

lemma end_use_report_Nil:
  "eut \<noteq> [] \<Longrightarrow> end_use_report [] eut = Inl (ZeroDivisionError ''division by zero'')"
  by (cases eut) (auto simp: end_use_report_def end_use_percent_def)

lemma end_use_report_ok:
  "rt \<noteq> [] \<Longrightarrow>
   end_use_report rt eut =
     Inr (map (\<lambda>(e, amt). (e, amt, if sum_list (map snd rt) = 0 then None
                                       else Some (amt / sum_list (map snd rt) * 100))) eut)"
  unfolding end_use_report_def
  by (rule map_raise_Inr) (auto simp: end_use_percent_def Let_def)

lemma end_use_totals_spec_ne: "end_use_total_spec rt end_uses \<noteq> []"
  by (simp add: end_use_total_spec_def end_uses_def)

lemma run_sankey_eq:
  "run_sankey fs =
     (case load_combined fs data_files of
        Inl e \<Rightarrow> Inl e
      | Inr rows \<Rightarrow>
          if rows = [] then Inl (ZeroDivisionError ''division by zero'')
          else Inr (build_figure (groupby_sum rows) (node_labels (groupby_sum rows) end_uses)
                 (map (\<lambda>k. the (map_of resource_colors k)) (map fst (groupby_sum rows)) @
                  map (\<lambda>k. the (map_of end_use_colors k)) (map fst end_uses))
                 (spec_state (groupby_sum rows) end_uses)))"
proof (cases "load_combined fs data_files")
  case (Inl e)
  then show ?thesis by (simp add: run_sankey_def)
next
  case (Inr rows)
  then have cats: "set (map fst (groupby_sum rows)) \<subseteq> set category_names"
    by (rule resource_totals_categories)
  have "allocate (groupby_sum rows) end_uses = Inr (spec_state (groupby_sum rows) end_uses)"
    using allocate_eq [OF end_uses_distinct] dense_categories [OF cats] by simp
  moreover have gnil: "groupby_sum [] = []" by (simp add: groupby_sum_def)
  ultimately show ?thesis using Inr cats
    by (cases "rows = []")
       (simp_all add: run_sankey_def node_colors_ok Let_def groupby_sum_Nil_iff end_use_report_Nil
          end_use_report_ok spec_state_def end_use_totals_spec_ne gnil)
qed

lemma run_sankey_cases:
  "run_sankey fs =
     (case first_unreadable fs data_files of
        Some (n, p) \<Rightarrow> Inl (ReadError p)
      | None \<Rightarrow>
          if \<forall>(n, p)\<in>set data_files. fs p = Some [] then Inl (ZeroDivisionError ''division by zero'')
          else Inr (build_figure (groupby_sum (concat (map (\<lambda>(n, p). tag_category n (the (fs p))) data_files)))
                 (node_labels (groupby_sum (concat (map (\<lambda>(n, p). tag_category n (the (fs p))) data_files))) end_uses)
                 (map (\<lambda>k. the (map_of resource_colors k))
                    (map fst (groupby_sum (concat (map (\<lambda>(n, p). tag_category n (the (fs p))) data_files)))) @
                  map (\<lambda>k. the (map_of end_use_colors k)) (map fst end_uses))
                 (spec_state (groupby_sum (concat (map (\<lambda>(n, p). tag_category n (the (fs p))) data_files))) end_uses)))"
proof (cases "first_unreadable fs data_files")
  case None
  then have load: "load_combined fs data_files = Inr (concat (map (\<lambda>(n, p). tag_category n (the (fs p))) data_files))"
    by (simp add: load_combined_Inr)
  show ?thesis using None load_combined_Nil_iff [OF load] by (simp add: run_sankey_eq load)
next
  case (Some f)
  then show ?thesis by (cases f) (simp add: run_sankey_eq load_combined_eq)
qed

lemma end_use_names_fresh: "e \<in> set (map fst end_uses) \<Longrightarrow> e \<notin> set category_names"
proof -
  assume "e \<in> set (map fst end_uses)"
  then have "e = ''Bioenergy & Electricity'' \<or> e = ''Heat & Thermal Energy'' \<or> e = ''Wood Pellets'' \<or>
             e = ''Biofuels (Ethanol/Biodiesel)'' \<or> e = ''Biochar & Soil Amendments'' \<or>
             e = ''Biochemicals & Materials''"
    by (simp add: end_uses_def)
  then show ?thesis by (elim disjE) (simp_all add: category_names_eq)
qed

lemma groupby_sum_distinct: "distinct (map fst (groupby_sum rows))"
  by (simp add: groupby_sum_keys)

lemma end_use_total_spec_keys: "map fst (end_use_total_spec rt eus) = map fst eus"
  by (induction eus) (auto simp: end_use_total_spec_def)

lemma figure_hover:
  assumes "set (map fst rt) \<subseteq> set category_names" and "distinct (map fst rt)"
  shows "node_customdata (build_figure rt (node_labels rt end_uses) cs (spec_state rt end_uses))
         = map snd rt @ map snd (end_use_total_spec rt end_uses)"
proof -
  let ?eut = "end_use_total_spec rt end_uses"
  have res: "map (node_hover rt ?eut) (map fst rt) = map snd rt"
    using map_dict_get_keys [OF assms(2), of "\<lambda>k. dict_get ?eut k 0"]
    by (simp add: node_hover_def)
  have "node_hover rt ?eut e = dict_get ?eut e 0" if "e \<in> set (map fst end_uses)" for e
  proof -
    have "e \<notin> set (map fst rt)" using assms(1) end_use_names_fresh [OF that] by blast
    then show ?thesis by (simp add: node_hover_def dict_get_absent)
  qed
  then have "map (node_hover rt ?eut) (map fst end_uses) = map (\<lambda>k. dict_get ?eut k 0) (map fst ?eut)"
    by (simp add: end_use_total_spec_keys)
  also have "\<dots> = map snd ?eut"
    using map_dict_get_keys [of ?eut "\<lambda>_. 0"] end_uses_distinct
    by (simp add: end_use_total_spec_keys)
  finally show ?thesis
    using res by (simp add: build_figure_def node_labels_def spec_state_def)
qed

lemma figure_links:
  fixes cs :: "string list"
  assumes "set (map fst rt) \<subseteq> set category_names"
  defines "fig \<equiv> build_figure rt (node_labels rt end_uses) cs (spec_state rt end_uses)"
  shows "length (link_source fig) = length (link_target fig) \<and>
         length (link_target fig) = length (link_value fig) \<and>
         (\<forall>k < length (link_source fig).
            link_source fig ! k < length (node_label fig) \<and>
            link_target fig ! k < length (node_label fig) \<and>
            node_label fig ! (link_source fig ! k) \<in> set category_names \<and>
            node_label fig ! (link_target fig ! k) \<in> set (map fst end_uses))"
proof -
  let ?n = "length rt" and ?m = "length end_uses"
  have m: "?m = 6" by (simp add: end_uses_def)
  have lay: "length (sources (spec_state rt end_uses)) = ?n * ?m \<and>
     length (targets (spec_state rt end_uses)) = ?n * ?m \<and>
     length (link_values (spec_state rt end_uses)) = ?n * ?m \<and>
     (\<forall>k < ?n * ?m. sources (spec_state rt end_uses) ! k = k div ?m \<and>
        targets (spec_state rt end_uses) ! k = ?n + k mod ?m)"
    using spec_state_layout [of rt end_uses] by simp
  have "link_source fig ! k < length (node_label fig) \<and>
        link_target fig ! k < length (node_label fig) \<and>
        node_label fig ! (link_source fig ! k) \<in> set category_names \<and>
        node_label fig ! (link_target fig ! k) \<in> set (map fst end_uses)"
    if k: "k < length (link_source fig)" for k
  proof -
    from k lay have kk: "k < ?n * ?m" by (simp add: fig_def build_figure_def)
    then have q: "k div ?m < ?n" by (simp add: less_mult_imp_div_less)
    have r: "k mod ?m < ?m" using m by simp
    have src: "link_source fig ! k = k div ?m" and tgt: "link_target fig ! k = ?n + k mod ?m"
      using lay kk by (simp_all add: fig_def build_figure_def)
    have "node_label fig ! (k div ?m) = fst (rt ! (k div ?m))"
      using q by (simp add: fig_def build_figure_def node_labels_def nth_append)
    moreover have "fst (rt ! (k div ?m)) \<in> set (map fst rt)"
      using q by simp
    moreover have "node_label fig ! (?n + k mod ?m) = fst (end_uses ! (k mod ?m))"
      using r by (simp add: fig_def build_figure_def node_labels_def nth_append)
    moreover have "fst (end_uses ! (k mod ?m)) \<in> set (map fst end_uses)"
      using r by simp
    ultimately show ?thesis
      using assms(1) q r src tgt by (auto simp: fig_def build_figure_def node_labels_def)
  qed
  with lay show ?thesis by (simp add: fig_def build_figure_def)
qed

lemma groupby_demo: "groupby_sum demo_rows = demo_totals"
  by (simp add: groupby_sum_def demo_rows_def demo_totals_def tag_category_def config_simps)

lemma run_sankey_demo:
  "run_sankey demo_fs =
     Inr (build_figure demo_totals (node_labels demo_totals end_uses)
           (map (\<lambda>k. the (map_of resource_colors k)) (map fst demo_totals) @
            map (\<lambda>k. the (map_of end_use_colors k)) (map fst end_uses))
           (spec_state demo_totals end_uses))"
  using groupby_sum_Nil_iff [of demo_rows]
  by (simp add: run_sankey_eq load_demo groupby_demo demo_totals_def)

lemma demo_totals_categories: "set (map fst demo_totals) \<subseteq> set category_names"
  by (simp add: demo_totals_def category_names_eq)

lemma run_sankey_Inr:
  assumes "run_sankey fs = Inr fig"
  obtains rows where "load_combined fs data_files = Inr rows" and "rows \<noteq> []"
    and "fig = build_figure (groupby_sum rows) (node_labels (groupby_sum rows) end_uses)
                 (map (\<lambda>k. the (map_of resource_colors k)) (map fst (groupby_sum rows)) @
                  map (\<lambda>k. the (map_of end_use_colors k)) (map fst end_uses))
                 (spec_state (groupby_sum rows) end_uses)"
  using assms by (cases "load_combined fs data_files") (auto simp: run_sankey_eq split: if_splits)

subsection \<open>Properties\<close>

text \<open>
  C7 (functional). The end-use report of lines 129--135: once the allocation has run on a
  non-empty \<open>resource_totals\<close> with a non-zero grand total, every end use is printed, in
  the order of the table, with its total as a percentage of the grand total, and the
  printed percentages add up to exactly 100 (no share is lost, since every row of the
  table sums to 1).
\<close>

theorem end_use_report_shares:
  assumes "allocate rt end_uses = Inr st" and "rt \<noteq> []" and "sum_list (map snd rt) \<noteq> 0"
  shows "\<exists>report. end_use_report rt (end_use_totals st) = Inr report \<and>
           map fst report = map fst end_uses \<and>
           (\<forall>(e, amt, percent) \<in> set report. percent = Some (amt / sum_list (map snd rt) * 100)) \<and>
           sum_list (map (\<lambda>(e, amt, percent). the percent) report) = 100"
proof -
  let ?g = "sum_list (map snd rt)" and ?eut = "end_use_total_spec rt end_uses"
  from allocate_Inr [OF end_uses_distinct assms(1)]
  have st: "end_use_totals st = ?eut" and d: "dense rt end_uses" by (simp_all add: spec_state_def)
  let ?report = "map (\<lambda>(e, amt). (e, amt, Some (amt / ?g * 100))) ?eut"
  have rep: "end_use_report rt (end_use_totals st) = Inr ?report"
    using end_use_report_ok [OF assms(2)] assms(3) st by simp
  have "sum_list (map (\<lambda>(e, amt, percent). the percent) ?report)
        = sum_list (map (\<lambda>x. snd x * (100 / ?g)) ?eut)"
    by (simp add: comp_def case_prod_unfold)
  also have "\<dots> = sum_list (map snd ?eut) * (100 / ?g)"
    by (simp only: sum_list_mult_const)
  also have "\<dots> = 100"
    using end_use_total_spec_sum [OF d] assms(3) by simp
  finally show ?thesis
    using rep by (auto simp: end_use_total_spec_keys comp_def case_prod_unfold)
qed

theorem end_use_report_shares_witness:
  "\<exists>st report. allocate [(''Logging Residues'', 200)] end_uses = Inr st \<and>
     end_use_report [(''Logging Residues'', 200)] (end_use_totals st) = Inr report \<and>
     sum_list (map (\<lambda>(e, amt, percent). the percent) report) = 100"
proof -
  obtain st where st: "allocate [(''Logging Residues'', 200)] end_uses = Inr st"
    using allocate_single_LR by blast
  from end_use_report_shares [OF st] st show ?thesis by auto
qed

text \<open>
  C12 (error). The Sankey script fails in exactly two ways: with the \<open>ReadError\<close> of the
  first file of \<open>data_files\<close> that cannot be read, or, when every file is readable but
  holds no rows, with the \<open>ZeroDivisionError\<close> of line 133. In particular it never
  raises \<open>KeyError\<close>: every category that reaches \<open>resource_totals\<close> has a colour and
  an entry in every row of \<open>end_uses\<close>.
\<close>

theorem run_sankey_error:
  "run_sankey fs = Inl e \<longleftrightarrow>
   (\<exists>n p. first_unreadable fs data_files = Some (n, p) \<and> e = ReadError p) \<or>
   ((\<forall>(n, p)\<in>set data_files. fs p = Some []) \<and> e = ZeroDivisionError ''division by zero'')"
proof (cases "first_unreadable fs data_files")
  case None
  then show ?thesis by (auto simp: run_sankey_cases)
next
  case (Some f)
  then show ?thesis by (cases f) (auto simp: run_sankey_cases all_empty_readable)
qed

theorem run_sankey_error_witness:
  "run_sankey (\<lambda>p. Some []) = Inl (ZeroDivisionError ''division by zero'')"
  using run_sankey_error [of "\<lambda>p. Some []" "ZeroDivisionError ''division by zero''"]
  by (simp add: first_unreadable_def data_files_def)

text \<open>
  C13 (liveness). The script runs to the end and produces a figure exactly when every file
  of \<open>data_files\<close> can be read and at least one of them holds a row.
\<close>

theorem run_sankey_succeeds:
  "(\<exists>fig. run_sankey fs = Inr fig) \<longleftrightarrow>
   (\<forall>(n, p)\<in>set data_files. fs p \<noteq> None) \<and> (\<exists>(n, p)\<in>set data_files. fs p \<noteq> Some [])"
proof (cases "first_unreadable fs data_files")
  case None
  then show ?thesis
    using first_unreadable_None_iff [of fs data_files] by (auto simp: run_sankey_cases)
next
  case (Some f)
  then show ?thesis
    using first_unreadable_None_iff [of fs data_files] by (cases f) (auto simp: run_sankey_cases)
qed

theorem run_sankey_succeeds_witness: "\<exists>fig. run_sankey demo_fs = Inr fig"
  using run_sankey_succeeds [of demo_fs]
  by (simp add: data_files_def demo_fs_def del: not_None_eq)

text \<open>
  C14 (safety). The figure's three link lists have equal length, every link index is a
  valid node index, every link starts at a resource-category node and ends at an end-use
  node.
\<close>

theorem run_sankey_links_valid:
  assumes "run_sankey fs = Inr fig"
  shows "length (link_source fig) = length (link_target fig) \<and>
         length (link_target fig) = length (link_value fig) \<and>
         (\<forall>k < length (link_source fig).
            link_source fig ! k < length (node_label fig) \<and>
            link_target fig ! k < length (node_label fig) \<and>
            node_label fig ! (link_source fig ! k) \<in> set category_names \<and>
            node_label fig ! (link_target fig ! k) \<in> set (map fst end_uses))"
proof -
  obtain rows where load: "load_combined fs data_files = Inr rows"
    and fig: "fig = build_figure (groupby_sum rows) (node_labels (groupby_sum rows) end_uses)
                 (map (\<lambda>k. the (map_of resource_colors k)) (map fst (groupby_sum rows)) @
                  map (\<lambda>k. the (map_of end_use_colors k)) (map fst end_uses))
                 (spec_state (groupby_sum rows) end_uses)"
    using assms by (rule run_sankey_Inr)
  show ?thesis
    unfolding fig by (rule figure_links [OF resource_totals_categories [OF load]])
qed

theorem run_sankey_links_valid_witness:
  "\<exists>fig. run_sankey demo_fs = Inr fig \<and> length (link_source fig) = length (link_value fig)"
proof -
  obtain fig where fig: "run_sankey demo_fs = Inr fig" using run_sankey_demo by blast
  from run_sankey_links_valid [OF fig] fig show ?thesis by auto
qed

text \<open>
  C15 (functional). The hover value of every node (\<open>customdata\<close>, line 145) is that
  node's own total: the category total for a resource node and the allocated total for an
  end-use node. The lookup \<open>resource_totals.get(label, end_use_totals.get(label, 0))\<close>
  never confuses the two because no end-use name is a category name.
\<close>

theorem run_sankey_hover:
  assumes "run_sankey fs = Inr fig" and "load_combined fs data_files = Inr rows"
  shows "node_label fig = map fst (groupby_sum rows) @ map fst end_uses \<and>
         node_customdata fig = map snd (groupby_sum rows) @ map snd (end_use_total_spec (groupby_sum rows) end_uses)"
proof -
  have fig: "fig = build_figure (groupby_sum rows) (node_labels (groupby_sum rows) end_uses)
                 (map (\<lambda>k. the (map_of resource_colors k)) (map fst (groupby_sum rows)) @
                  map (\<lambda>k. the (map_of end_use_colors k)) (map fst end_uses))
                 (spec_state (groupby_sum rows) end_uses)"
    using assms by (simp add: run_sankey_eq split: if_splits)
  show ?thesis
    using figure_hover [OF resource_totals_categories [OF assms(2)] groupby_sum_distinct]
    by (simp add: fig build_figure_def node_labels_def)
qed

theorem run_sankey_hover_witness:
  "\<exists>fig. run_sankey demo_fs = Inr fig \<and> node_customdata fig ! 0 = 100"
proof -
  obtain fig where fig: "run_sankey demo_fs = Inr fig" using run_sankey_demo by blast
  from run_sankey_hover [OF fig load_demo] fig show ?thesis
    by (auto simp: groupby_demo demo_totals_def)
qed

end
