(* ===== verification/ResourceMap.thy ===== *)
theory ResourceMap
  imports Loader
begin

text \<open>
  The map script \<open>src/create_resource_map.py\<close>. It loads the same four files as the
  Sankey script (lines 13--38, the loop of \<open>Loader\<close> over its own copy of the file
  dict), prints per category the total, the mean and the number of points (lines
  45--52), centres the map on the mean coordinates (line 56), and for each category keeps
  at most \<open>max_points_per_type\<close> = 500 points, the largest amounts first
  (\<open>nlargest\<close>, line 91), drawing one circle marker per kept point with the radius
  \<open>min(max(amount * 0.5, 3), 15)\<close> and the category's colour (lines 85--120). The
  markers of a category form one layer; the layers are added in the order of the file
  dict (lines 122--124).

  pandas' \<open>nlargest(n, col)\<close> (with its default \<open>keep='first'\<close>) returns the
  \<open>n\<close> rows with the largest values, ordered by decreasing value and, among equal
  values, in their original order; it is modelled as a stable sort on the negated
  amount followed by \<open>take\<close>. \<open>folium.Map\<close> rejects a location containing NaN with
  \<open>ValueError\<close>, which is what the centre of an empty frame is.
\<close>

text \<open>
  A circle marker (lines 111--120): its location, radius and colour, and the data its popup
  shows (lines 101--109: the category, amount, resource, county, scenario and price of the
  row; the HTML layout and number formatting of the popup are not modelled).
\<close>

record marker =
  marker_location :: "real \<times> real"
  marker_radius :: real
  marker_color :: string
  marker_category :: string
  marker_amount :: real
  marker_resource :: string
  marker_county :: string
  marker_scenario :: string
  marker_price :: real

record resource_map =
  map_center :: "real \<times> real"
  map_summary :: "(string \<times> real \<times> real option \<times> nat) list"
  map_layers :: "(string \<times> marker list) list"

definition map_data_files :: "(string, string) dict" where
  "map_data_files =
    [(''Forest Processing Waste'', ''data/CA_forest_processing_waste_points_BillionTonReport.csv''),
     (''Logging Residues'', ''data/CA_logging_residues_points_BillionTonReport.csv''),
     (''Other Forest Waste'', ''data/CA_other_forest_waste_points_BillionTonReport.csv''),
     (''Small-Diameter Trees'', ''data/CA_small-diameter_trees_points_BillionTonReport.csv'')]"

definition colors :: "(string, string) dict" where
  "colors =
    [(''Forest Processing Waste'', ''#FF6B6B''), (''Logging Residues'', ''#4ECDC4''),
     (''Other Forest Waste'', ''#95E1D3''), (''Small-Diameter Trees'', ''#F38181'')]"

definition max_points_per_type :: nat where
  "max_points_per_type = 500"

text \<open>Lines 28--38: the loading loop of the map script and \<open>pd.concat\<close>.\<close>

definition load_map_data :: "filesystem \<Rightarrow> py_error + resource_point list" where
  "load_map_data fs = load_combined fs map_data_files"

text \<open>Lines 46--52: total, mean (NaN, here \<open>None\<close>, for no points) and count.\<close>

definition resource_summary :: "resource_point list \<Rightarrow> string \<Rightarrow> real \<times> real option \<times> nat" where
  "resource_summary combined_df resource_name =
     (let resource_data = filter (\<lambda>r. resource_category r = resource_name) combined_df
      in (sum_list (map resource_amount resource_data), mean_opt (map resource_amount resource_data),
          length resource_data))"

definition ca_center :: "resource_point list \<Rightarrow> (real \<times> real) option" where
  "ca_center combined_df =
     (case (mean_opt (map latitude combined_df), mean_opt (map longitude combined_df)) of
        (Some lat, Some lon) \<Rightarrow> Some (lat, lon)
      | _ \<Rightarrow> None)"

definition nlargest :: "nat \<Rightarrow> resource_point list \<Rightarrow> resource_point list" where
  "nlargest n rows = take n (sort_key (\<lambda>r. - resource_amount r) rows)"

definition select_points :: "resource_point list \<Rightarrow> resource_point list" where
  "select_points resource_data =
     (if length resource_data > max_points_per_type
      then nlargest max_points_per_type resource_data else resource_data)"

definition radius :: "real \<Rightarrow> real" where
  "radius amount = min (max (amount * 0.5) 3) 15"

definition make_marker :: "string \<Rightarrow> resource_point \<Rightarrow> py_error + marker" where
  "make_marker resource_name row =
     (case dict_getitem colors resource_name of
        Inl e \<Rightarrow> Inl e
      | Inr c \<Rightarrow> Inr \<lparr>marker_location = (latitude row, longitude row),
                      marker_radius = radius (resource_amount row), marker_color = c,
                      marker_category = resource_name, marker_amount = resource_amount row,
                      marker_resource = resource row, marker_county = county_name row,
                      marker_scenario = bt23_scenario row, marker_price = resource_price row\<rparr>)"

definition category_layer :: "resource_point list \<Rightarrow> string \<Rightarrow> py_error + (string \<times> marker list)" where
  "category_layer combined_df resource_name =
     (case map_raise (make_marker resource_name)
             (select_points (filter (\<lambda>r. resource_category r = resource_name) combined_df)) of
        Inl e \<Rightarrow> Inl e
      | Inr ms \<Rightarrow> Inr (resource_name, ms))"

definition run_map :: "filesystem \<Rightarrow> py_error + resource_map" where
  "run_map fs =
     (case load_map_data fs of
        Inl e \<Rightarrow> Inl e
      | Inr combined_df \<Rightarrow>
          (let summary = map (\<lambda>n. (n, resource_summary combined_df n)) (map fst map_data_files)
           in case ca_center combined_df of
                None \<Rightarrow> Inl (ValueError ''Location values cannot contain NaNs.'')
              | Some center \<Rightarrow>
                  (case map_raise (category_layer combined_df) (map fst map_data_files) of
                     Inl e \<Rightarrow> Inl e
                   | Inr layers \<Rightarrow>
                       Inr \<lparr>map_center = center, map_summary = summary, map_layers = layers\<rparr>)))"

subsection \<open>Top-K selection\<close>

lemma length_nlargest: "length (nlargest n rows) = min n (length rows)"
  by (simp add: nlargest_def)

lemma nlargest_split:
  "mset rows = mset (nlargest n rows) + mset (drop n (sort_key (\<lambda>r. - resource_amount r) rows)) \<and>
   sorted (map (\<lambda>r. - resource_amount r) (nlargest n rows) @
           map (\<lambda>r. - resource_amount r) (drop n (sort_key (\<lambda>r. - resource_amount r) rows)))"
proof -
  let ?xs = "sort_key (\<lambda>r. - resource_amount r) rows"
  have "mset rows = mset (take n ?xs @ drop n ?xs)" by simp
  moreover have "sorted (map (\<lambda>r. - resource_amount r) (take n ?xs @ drop n ?xs))" by simp
  ultimately show ?thesis by (simp only: nlargest_def mset_append map_append)
qed

lemma mset_nlargest_subset: "mset (nlargest n rows) \<subseteq># mset rows"
  using nlargest_split [of rows n] by (metis mset_subset_eq_add_left)

lemma nlargest_dominates:
  assumes "x \<in> set (nlargest n rows)" and "y \<in># mset rows - mset (nlargest n rows)"
  shows "resource_amount y \<le> resource_amount x"
proof -
  let ?rest = "drop n (sort_key (\<lambda>r. - resource_amount r) rows)"
  from nlargest_split [of rows n]
  have split: "mset rows = mset (nlargest n rows) + mset ?rest"
    and sorted: "sorted (map (\<lambda>r. - resource_amount r) (nlargest n rows) @
                         map (\<lambda>r. - resource_amount r) ?rest)"
    by simp_all
  from assms(2) split have "y \<in> set ?rest" by simp
  with assms(1) sorted have "- resource_amount x \<le> - resource_amount y"
    by (auto simp: sorted_append)
  then show ?thesis by simp
qed

lemma nlargest_sorted: "sorted_wrt (\<ge>) (map resource_amount (nlargest n rows))"
proof -
  have "sorted (map (\<lambda>r. - resource_amount r) (nlargest n rows))"
    using nlargest_split [of rows n] by (simp add: sorted_append)
  then show ?thesis
    by (simp add: sorted_wrt_map sorted_map)
qed

lemma nlargest_stable:
  "\<exists>j. filter (\<lambda>r. resource_amount r = v) (nlargest n rows) =
       take j (filter (\<lambda>r. resource_amount r = v) rows)"
proof -
  have "filter (\<lambda>r. - resource_amount r = - v) (sort_key (\<lambda>r. - resource_amount r) rows)
        = filter (\<lambda>r. - resource_amount r = - v) rows"
    by (rule sort_key_stable)
  then have stable: "filter (\<lambda>r. resource_amount r = v) (sort_key (\<lambda>r. - resource_amount r) rows)
        = filter (\<lambda>r. resource_amount r = v) rows"
    by simp
  obtain j where "filter (\<lambda>r. resource_amount r = v) (take n (sort_key (\<lambda>r. - resource_amount r) rows))
      = take j (filter (\<lambda>r. resource_amount r = v) (sort_key (\<lambda>r. - resource_amount r) rows))"
    using filter_take_prefix by blast
  with stable show ?thesis by (auto simp: nlargest_def)
qed

lemma select_points_cases:
  "select_points rows = (if max_points_per_type < length rows then nlargest max_points_per_type rows else rows)"
  by (simp add: select_points_def)

subsection \<open>The whole script\<close>

lemma map_data_files_eq: "map_data_files = data_files"
  by (simp add: map_data_files_def data_files_def)

lemma map_names_disj:
  "n \<in> set (map fst map_data_files) \<Longrightarrow>
   n = ''Forest Processing Waste'' \<or> n = ''Logging Residues'' \<or> n = ''Other Forest Waste'' \<or>
   n = ''Small-Diameter Trees''"
  by (simp add: map_data_files_def)

lemma map_name_color: "n \<in> set (map fst map_data_files) \<Longrightarrow> \<exists>c. map_of colors n = Some c"
  by (drule map_names_disj) (elim disjE; simp add: colors_def)

lemma make_marker_ok:
  "map_of colors n = Some c \<Longrightarrow>
   make_marker n row = Inr \<lparr>marker_location = (latitude row, longitude row),
                             marker_radius = radius (resource_amount row), marker_color = c,
                             marker_category = n, marker_amount = resource_amount row,
                             marker_resource = resource row, marker_county = county_name row,
                             marker_scenario = bt23_scenario row, marker_price = resource_price row\<rparr>"
  by (simp add: make_marker_def dict_getitem_def)

definition layer_of :: "resource_point list \<Rightarrow> string \<Rightarrow> marker list" where
  "layer_of rows n =
     map (\<lambda>row. projr (make_marker n row)) (select_points (filter (\<lambda>r. resource_category r = n) rows))"

lemma category_layer_ok:
  "n \<in> set (map fst map_data_files) \<Longrightarrow> category_layer rows n = Inr (n, layer_of rows n)"
proof -
  assume n: "n \<in> set (map fst map_data_files)"
  then obtain c where c: "map_of colors n = Some c" using map_name_color by blast
  have "map_raise (make_marker n) (select_points (filter (\<lambda>r. resource_category r = n) rows))
        = Inr (layer_of rows n)"
    unfolding layer_of_def by (rule map_raise_Inr) (simp add: make_marker_ok [OF c])
  then show ?thesis by (simp add: category_layer_def)
qed

lemma run_map_eq:
  "run_map fs =
     (case load_map_data fs of
        Inl e \<Rightarrow> Inl e
      | Inr rows \<Rightarrow>
          (case ca_center rows of
             None \<Rightarrow> Inl (ValueError ''Location values cannot contain NaNs.'')
           | Some center \<Rightarrow>
               Inr \<lparr>map_center = center,
                    map_summary = map (\<lambda>n. (n, resource_summary rows n)) (map fst map_data_files),
                    map_layers = map (\<lambda>n. (n, layer_of rows n)) (map fst map_data_files)\<rparr>))"
proof (cases "load_map_data fs")
  case (Inl e)
  then show ?thesis by (simp add: run_map_def)
next
  case (Inr rows)
  have "map_raise (category_layer rows) (map fst map_data_files)
        = Inr (map (\<lambda>n. (n, layer_of rows n)) (map fst map_data_files))"
    by (rule map_raise_Inr) (simp add: category_layer_ok)
  with Inr show ?thesis
    by (simp add: run_map_def Let_def split: option.splits)
qed

lemma radius_range: "3 \<le> radius a \<and> radius a \<le> 15"
  by (simp add: radius_def)

lemma radius_mono: "a \<le> b \<Longrightarrow> radius a \<le> radius b"
  by (simp add: radius_def min_def max_def)

lemma set_select_points: "set (select_points xs) \<subseteq> set xs"
proof -
  have "set_mset (mset (nlargest max_points_per_type xs)) \<subseteq> set_mset (mset xs)"
    by (rule set_mset_mono [OF mset_nlargest_subset])
  then show ?thesis by (simp add: select_points_def)
qed

lemma layer_of_markers:
  assumes "mk \<in> set (layer_of rows n)" and "map_of colors n = Some c"
  shows "marker_category mk = n \<and> marker_color mk = c \<and> 3 \<le> marker_radius mk \<and>
         marker_radius mk \<le> 15 \<and>
         (\<exists>row\<in>set rows. resource_category row = n \<and>
            marker_location mk = (latitude row, longitude row) \<and>
            marker_amount mk = resource_amount row \<and> marker_resource mk = resource row \<and>
            marker_county mk = county_name row \<and> marker_scenario mk = bt23_scenario row \<and>
            marker_price mk = resource_price row)"
proof -
  obtain row where row: "row \<in> set (select_points (filter (\<lambda>r. resource_category r = n) rows))"
    and mk: "mk = projr (make_marker n row)"
    using assms(1) by (auto simp: layer_of_def)
  from row set_select_points have "row \<in> set rows \<and> resource_category row = n" by fastforce
  with mk show ?thesis by (auto simp: make_marker_ok [OF assms(2)] radius_range)
qed

lemma length_layer_of:
  "length (layer_of rows n) = min max_points_per_type (length (filter (\<lambda>r. resource_category r = n) rows))"
  by (simp add: layer_of_def select_points_def length_nlargest)

lemma load_map_data_Inl: "load_map_data fs = Inl e \<Longrightarrow> \<exists>p. e = ReadError p"
  by (simp add: load_map_data_def load_combined_Inl)

lemma run_map_Inr:
  "run_map fs = Inr m \<Longrightarrow>
   \<exists>rows. load_map_data fs = Inr rows \<and> ca_center rows = Some (map_center m) \<and>
     map_summary m = map (\<lambda>n. (n, resource_summary rows n)) (map fst map_data_files) \<and>
     map_layers m = map (\<lambda>n. (n, layer_of rows n)) (map fst map_data_files)"
  by (auto simp: run_map_eq split: sum.splits option.splits)

lemma ca_center_None: "ca_center rows = None \<longleftrightarrow> rows = []"
  by (simp add: ca_center_def mean_opt_def)

lemma map_data_files_distinct: "distinct (map fst map_data_files)"
  by (simp add: map_data_files_def)

lemma summary_per_file:
  assumes "load_map_data fs = Inr rows" and "(n, p) \<in> set map_data_files"
  shows "resource_summary rows n =
           (sum_list (map resource_amount (the (fs p))), mean_opt (map resource_amount (the (fs p))),
            length (the (fs p)))"
proof -
  from assms(1) have "rows = concat (map (\<lambda>(n, p). tag_category n (the (fs p))) map_data_files)"
    by (simp add: load_map_data_def load_combined_Inr)
  then have "filter (\<lambda>r. resource_category r = n) rows = tag_category n (the (fs p))"
    using filter_tagged_frames [OF map_data_files_distinct assms(2)] by simp
  then show ?thesis by (simp add: resource_summary_def)
qed

lemma map_of_summary:
  "n \<in> set (map fst map_data_files) \<Longrightarrow>
   map_of (map (\<lambda>n. (n, resource_summary rows n)) (map fst map_data_files)) n = Some (resource_summary rows n)"
  by (simp only: map_of_map_keys if_True)

lemma load_map_demo: "load_map_data demo_fs = Inr demo_rows"
  by (simp add: load_map_data_def map_data_files_eq load_demo)

lemma run_map_demo: "\<exists>m. run_map demo_fs = Inr m"
proof -
  have "demo_rows \<noteq> []" by (simp add: demo_rows_def config_simps tag_category_def)
  then obtain c where "ca_center demo_rows = Some c" using ca_center_None by (cases "ca_center demo_rows") auto
  then show ?thesis by (simp add: run_map_eq load_map_demo)
qed

lemma load_map_data_rows:
  "load_map_data fs = Inr rows \<longleftrightarrow>
   first_unreadable fs map_data_files = None \<and>
   rows = concat (map (\<lambda>(n, p). tag_category n (the (fs p))) map_data_files)"
  by (simp add: load_map_data_def load_combined_Inr)

lemma run_map_cases:
  "run_map fs =
     (case first_unreadable fs map_data_files of
        Some (n, p) \<Rightarrow> Inl (ReadError p)
      | None \<Rightarrow>
          if \<forall>(n, p)\<in>set map_data_files. fs p = Some []
          then Inl (ValueError ''Location values cannot contain NaNs.'')
          else Inr \<lparr>map_center = the (ca_center (concat (map (\<lambda>(n, p). tag_category n (the (fs p))) map_data_files))),
                    map_summary = map (\<lambda>n. (n, resource_summary (concat (map (\<lambda>(n, p). tag_category n (the (fs p))) map_data_files)) n)) (map fst map_data_files),
                    map_layers = map (\<lambda>n. (n, layer_of (concat (map (\<lambda>(n, p). tag_category n (the (fs p))) map_data_files)) n)) (map fst map_data_files)\<rparr>)"
proof (cases "first_unreadable fs map_data_files")
  case None
  define rows where "rows = (concat (map (\<lambda>(n, p). tag_category n (the (fs p))) map_data_files))"
  have load: "load_map_data fs = Inr rows" using None by (simp add: load_map_data_rows rows_def)
  have empty: "rows = [] \<longleftrightarrow> (\<forall>(n, p)\<in>set map_data_files. fs p = Some [])"
    using load_combined_Nil_iff load by (simp add: load_map_data_def)
  show ?thesis
  proof (cases "rows = []")
    case True
    with None empty show ?thesis by (auto simp: run_map_eq load ca_center_def mean_opt_def)
  next
    case False
    then obtain c where "ca_center rows = Some c" using ca_center_None by (cases "ca_center rows") auto
    with None False empty show ?thesis by (simp add: run_map_eq load flip: rows_def)
  qed
next
  case (Some f)
  then show ?thesis
    by (cases f) (simp add: run_map_eq load_map_data_def load_combined_eq)
qed

subsection \<open>Properties of the map script\<close>

text \<open>
  C17 (functional). The points drawn for a category: at most \<open>max_points_per_type\<close> of them,
  exactly \<open>min 500 (count)\<close>; they are a sub-multiset of the category's rows, and no
  dropped row has a larger amount than any kept one (the cap keeps the largest amounts).
\<close>

theorem select_points_top:
  "length (select_points rows) = min max_points_per_type (length rows) \<and>
   mset (select_points rows) \<subseteq># mset rows \<and>
   (\<forall>x\<in>set (select_points rows). \<forall>y\<in>#mset rows - mset (select_points rows).
      resource_amount y \<le> resource_amount x)"
proof (cases "max_points_per_type < length rows")
  case True
  then show ?thesis
    using mset_nlargest_subset nlargest_dominates by (simp add: select_points_def length_nlargest)
next
  case False
  then show ?thesis by (simp add: select_points_def)
qed

theorem select_points_top_witness:
  "length (select_points [demo_point 5, demo_point 7]) = 2 \<and>
   mset (select_points [demo_point 5, demo_point 7]) \<subseteq># mset [demo_point 5, demo_point 7]"
  using select_points_top [of "[demo_point 5, demo_point 7]"] by (simp add: max_points_per_type_def)

text \<open>
  C18 (functional). pandas' \<open>nlargest(n)\<close> as modelled: the kept rows are in decreasing
  order of amount, rows of equal amount keep their original order and the first of them
  are kept (\<open>keep='first'\<close>), and every dropped row is at most every kept one.
\<close>

theorem nlargest_order:
  "sorted_wrt (\<ge>) (map resource_amount (nlargest n rows)) \<and>
   (\<exists>j. filter (\<lambda>r. resource_amount r = v) (nlargest n rows) =
        take j (filter (\<lambda>r. resource_amount r = v) rows)) \<and>
   (\<forall>x\<in>set (nlargest n rows). \<forall>y\<in>#mset rows - mset (nlargest n rows).
      resource_amount y \<le> resource_amount x)"
  using nlargest_sorted nlargest_stable nlargest_dominates by blast

theorem nlargest_order_witness:
  "nlargest 2 [demo_point 5, demo_point 7, demo_point 6] = [demo_point 7, demo_point 6] \<and>
   sorted_wrt (\<ge>) (map resource_amount (nlargest 2 [demo_point 5, demo_point 7, demo_point 6])) \<and>
   resource_amount (demo_point 5) \<le> resource_amount (demo_point 6)"
proof -
  have top: "nlargest 2 [demo_point 5, demo_point 7, demo_point 6] = [demo_point 7, demo_point 6]"
    by (simp add: nlargest_def demo_point_def)
  have "demo_point 6 \<in> set (nlargest 2 [demo_point 5, demo_point 7, demo_point 6])"
    and "demo_point 5 \<in># mset [demo_point 5, demo_point 7, demo_point 6] -
                        mset (nlargest 2 [demo_point 5, demo_point 7, demo_point 6])"
    using top by (simp_all add: demo_point_def)
  with nlargest_order [of 2 "[demo_point 5, demo_point 7, demo_point 6]" 7] top show ?thesis
    by blast
qed

text \<open>
  C19 (bounds). The marker radius \<open>min(max(amount * 0.5, 3), 15)\<close> lies in [3, 15], is
  monotone in the amount, and is half the amount in the unclamped range [6, 30].
\<close>

theorem radius_clamp:
  "3 \<le> radius a \<and> radius a \<le> 15 \<and> (a \<le> b \<longrightarrow> radius a \<le> radius b) \<and>
   (6 \<le> a \<and> a \<le> 30 \<longrightarrow> radius a = a * 0.5)"
  using radius_range radius_mono by (simp add: radius_def)

theorem radius_clamp_witness:
  "radius 10 \<le> radius 20 \<and> radius 10 = 5 \<and> radius 100 = 15 \<and> radius 2 = 3"
  using radius_clamp [of 10 20] by (simp add: radius_def)

text \<open>
  C20 (functional). When the map script succeeds, it draws one layer per category in the
  order of the file dict; the layer of category \<open>n\<close> has exactly
  \<open>min 500 (number of n's rows)\<close> markers, each in \<open>n\<close>'s colour with a radius in
  [3, 15], and each is placed at the coordinates of one of \<open>n\<close>'s rows and its popup
  shows that row's amount, resource, county, scenario and price.
\<close>

theorem run_map_layers:
  assumes "run_map fs = Inr m" and "load_map_data fs = Inr rows"
  shows "map fst (map_layers m) = map fst map_data_files \<and>
         (\<forall>(n, ms)\<in>set (map_layers m).
            length ms = min max_points_per_type (length (filter (\<lambda>r. resource_category r = n) rows)) \<and>
            (\<forall>mk\<in>set ms. marker_category mk = n \<and> map_of colors n = Some (marker_color mk) \<and>
               3 \<le> marker_radius mk \<and> marker_radius mk \<le> 15 \<and>
               (\<exists>row\<in>set rows. resource_category row = n \<and>
                  marker_location mk = (latitude row, longitude row) \<and>
                  marker_amount mk = resource_amount row \<and> marker_resource mk = resource row \<and>
                  marker_county mk = county_name row \<and> marker_scenario mk = bt23_scenario row \<and>
                  marker_price mk = resource_price row)))"
proof -
  from run_map_Inr [OF assms(1)] assms(2)
  have layers: "map_layers m = map (\<lambda>n. (n, layer_of rows n)) (map fst map_data_files)" by auto
  have "length ms = min max_points_per_type (length (filter (\<lambda>r. resource_category r = n) rows)) \<and>
        (\<forall>mk\<in>set ms. marker_category mk = n \<and> map_of colors n = Some (marker_color mk) \<and>
           3 \<le> marker_radius mk \<and> marker_radius mk \<le> 15 \<and>
           (\<exists>row\<in>set rows. resource_category row = n \<and>
              marker_location mk = (latitude row, longitude row) \<and> marker_amount mk = resource_amount row \<and>
              marker_resource mk = resource row \<and> marker_county mk = county_name row \<and>
              marker_scenario mk = bt23_scenario row \<and> marker_price mk = resource_price row))"
    if "(n, ms) \<in> set (map_layers m)" for n ms
  proof -
    from that layers have n: "n \<in> set (map fst map_data_files)" and ms: "ms = layer_of rows n" by auto
    obtain c where c: "map_of colors n = Some c" using map_name_color [OF n] by blast
    show ?thesis using layer_of_markers [OF _ c] c by (auto simp: ms length_layer_of)
  qed
  then show ?thesis by (auto simp: layers comp_def)
qed

theorem run_map_layers_witness:
  "\<exists>m. run_map demo_fs = Inr m \<and>
     map fst (map_layers m) = [''Forest Processing Waste'', ''Logging Residues'', ''Other Forest Waste'',
                               ''Small-Diameter Trees''] \<and>
     length (snd (hd (map_layers m))) = 2"
proof -
  obtain m where m: "run_map demo_fs = Inr m" using run_map_demo by blast
  note layers = run_map_layers [OF m load_map_demo]
  have names: "map fst (map_layers m) = [''Forest Processing Waste'', ''Logging Residues'',
      ''Other Forest Waste'', ''Small-Diameter Trees'']"
    using layers by (simp add: map_data_files_def)
  then obtain ms rest where ml: "map_layers m = (''Forest Processing Waste'', ms) # rest"
    by (cases "map_layers m") auto
  have "length ms = min max_points_per_type
          (length (filter (\<lambda>r. resource_category r = ''Forest Processing Waste'') demo_rows))"
    using layers ml by auto
  then have "length ms = 2"
    by (simp add: max_points_per_type_def demo_rows_def config_simps tag_category_def)
  with m names ml show ?thesis by auto
qed

text \<open>
  C21 (error). The map script fails exactly in two ways: with the \<open>ReadError\<close> of the
  first unreadable file, or, when every file is readable but all four are empty, with the
  \<open>ValueError\<close> that \<open>folium.Map\<close> raises for the NaN centre. It never raises
  \<open>KeyError\<close>: every category has a colour.
\<close>

theorem run_map_error:
  "run_map fs = Inl e \<longleftrightarrow>
   (\<exists>n p. first_unreadable fs map_data_files = Some (n, p) \<and> e = ReadError p) \<or>
   ((\<forall>(n, p)\<in>set map_data_files. fs p = Some []) \<and>
    e = ValueError ''Location values cannot contain NaNs.'')"
proof (cases "first_unreadable fs map_data_files")
  case None
  then show ?thesis by (auto simp: run_map_cases)
next
  case (Some f)
  then show ?thesis by (cases f) (auto simp: run_map_cases all_empty_readable)
qed

theorem run_map_error_witness:
  "run_map (\<lambda>p. Some []) = Inl (ValueError ''Location values cannot contain NaNs.'')"
  using run_map_error [of "\<lambda>p. Some []" "ValueError ''Location values cannot contain NaNs.''"]
  by simp

text \<open>
  C22 (functional). The printed summary of each category is its file's own total, mean and
  number of points (lines 45--52), whatever the other files hold.
\<close>

theorem run_map_summary:
  assumes "run_map fs = Inr m" and "(n, p) \<in> set map_data_files"
  shows "map_of (map_summary m) n =
           Some (sum_list (map resource_amount (the (fs p))), mean_opt (map resource_amount (the (fs p))),
                 length (the (fs p)))"
proof -
  obtain rows where rows: "load_map_data fs = Inr rows"
    and sm: "map_summary m = map (\<lambda>n. (n, resource_summary rows n)) (map fst map_data_files)"
    using run_map_Inr [OF assms(1)] by blast
  have "n \<in> set (map fst map_data_files)" using assms(2) by force
  then show ?thesis by (simp only: sm map_of_summary summary_per_file [OF rows assms(2)])
qed

theorem run_map_summary_witness:
  "\<exists>m. run_map demo_fs = Inr m \<and> map_of (map_summary m) ''Forest Processing Waste'' = Some (100, Some 50, 2)"
proof -
  obtain m where m: "run_map demo_fs = Inr m" using run_map_demo by blast
  have "(''Forest Processing Waste'', ''data/CA_forest_processing_waste_points_BillionTonReport.csv'')
        \<in> set map_data_files" by (simp add: map_data_files_def)
  from run_map_summary [OF m this] m show ?thesis
    by (simp add: demo_fs_def demo_point_def mean_opt_def)
qed

end
