(* ===== verification/Spec2Isabelle.thy ===== *)
theory Spec2Isabelle
  imports Loader Allocation Sankey ResourceMap
begin

text \<open>
  \<^bold>\<open>A verification library for the California forest-biomass scripts.\<close>

  The repository has two one-shot Python scripts that share an ingestion step:
  \<^item> \<open>src/create_sankey_diagram.py\<close> loads four CSV files (one per resource category),
    sums \<open>resource_amount\<close> per category, fans every category total out over six end
    uses with the fixed fraction table \<open>end_uses\<close>, and builds the node and link lists
    of a Plotly Sankey diagram;
  \<^item> \<open>src/create_resource_map.py\<close> loads the same files, prints a per-category summary
    (total, mean, count), keeps at most 500 points per category (the largest amounts),
    and draws one Folium circle marker per kept point with a clamped radius.
  The scripts do not share state; each re-derives its aggregates from the files.

  \<^bold>\<open>Theories.\<close>
  \<^item> \<open>Prelude\<close>: the Python idioms both scripts use, modelled once: dicts as association
    lists in insertion order (\<open>dict_getitem\<close> raises \<open>KeyError\<close>, \<open>dict_iadd\<close> is
    \<open>d[k] += v\<close>), exceptions as the left side of a sum (\<open>py_error\<close>), comprehensions
    that raise (\<open>map_raise\<close>), pandas' \<open>mean\<close> with NaN as \<open>None\<close>, and the list lemmas
    the components share (sums over keys, enumerated loops, blocks of a concatenation).
  \<^item> \<open>Loader\<close>: the record \<open>resource_point\<close> (one CSV row), \<open>data_files\<close>, \<open>read_csv\<close>
    over a data directory (a map from paths to rows; an unmapped path is a file that
    cannot be read), the loop \<open>load_frames\<close> of lines 19--24 with its accumulator
    \<open>all_data\<close>, \<open>load_combined\<close> (the loop and \<open>pd.concat\<close>), and \<open>groupby_sum\<close>
    (line 29, with pandas' sorted group keys). Its lemmas characterise the loader on both
    branches (\<open>load_combined_eq\<close>: the tagged rows of every file, or \<open>ReadError\<close> for the
    first unreadable one), recover each file's rows by filtering on the tag, and show that
    the group sums partition the total.
  \<^item> \<open>Allocation\<close>: the core. \<open>end_uses\<close> (lines 41--78), the loop state
    \<open>sankey_state\<close> (the lists \<open>sources\<close>, \<open>targets\<close>, \<open>values\<close> and the dict
    \<open>end_use_totals\<close>), \<open>inner_loop\<close> and \<open>outer_loop\<close> (lines 116--125) and
    \<open>allocate\<close> (lines 114--125). The abstract specification is \<open>spec_state\<close>: the cross
    product \<open>flow_edges\<close> of resource totals and table rows in loop order, and
    \<open>end_use_total_spec\<close>. \<open>inner_loop_eq\<close> and \<open>outer_loop_eq\<close> characterise the loops
    by induction on the rows with the state generalised, under the invariant \<open>keys_ok\<close>
    (the keys of \<open>end_use_totals\<close> are distinct and cover the table, so \<open>+=\<close> never
    raises); \<open>allocate_eq\<close> is the refinement: \<open>allocate\<close> returns \<open>spec_state\<close> when
    the table is \<open>dense\<close> and raises \<open>KeyError\<close> for the first incomplete category
    otherwise. Its claims (C1--C6) are corollaries of the refinement: the sums of the links
    out of a category and into an end use, the layout of the three link lists, and
    conservation of every category total (every row of the table sums to 1).
  \<^item> \<open>Sankey\<close> (imports \<open>Loader\<close> and \<open>Allocation\<close>): the rendering half of
    \<open>create_sankey_diagram.py\<close> (lines 88--156): the colour dicts, \<open>node_labels\<close>,
    \<open>node_colors\<close> (a comprehension over \<open>colors[label]\<close>, which may raise),
    \<open>node_hover\<close>, the end-use report of lines 129--135 (\<open>end_use_percent\<close>,
    \<open>end_use_report\<close>), the data record \<open>sankey_figure\<close> handed to \<open>go.Sankey\<close>, and
    \<open>run_sankey\<close>, the whole script composed in the code's order (load, group, colour,
    allocate, report, build). On an empty dataset line 133 divides the int \<open>0\<close> by the
    int \<open>0\<close> and raises \<open>ZeroDivisionError\<close>; on a non-empty one the divisor is a
    numpy float and a zero total gives \<open>nan\<close>, modelled as \<open>None\<close>.
    \<open>run_sankey_cases\<close> characterises the script by the first unreadable file and the
    emptiness of the files. Its claims show that the printed shares add up to 100 (C7),
    that the script fails exactly with the first \<open>ReadError\<close> or the
    \<open>ZeroDivisionError\<close> of an all-empty dataset and never with \<open>KeyError\<close> (C12),
    succeeds exactly when the files are readable and not all empty (C13), produces valid
    link indices from category nodes to end-use nodes (C14), and shows each node's own
    total on hover (C15).
  \<^item> \<open>ResourceMap\<close> (imports \<open>Loader\<close>): \<open>create_resource_map.py\<close>. The loader is
    shared (\<open>load_map_data\<close> is \<open>load_combined\<close> over the map script's own copy of the
    file dict), then \<open>resource_summary\<close> (lines 45--52), \<open>ca_center\<close> (line 56),
    \<open>nlargest\<close> and \<open>select_points\<close> (lines 86--94), \<open>radius\<close> (line 98), the
    record \<open>marker\<close> (location, radius, colour and the row data its popup shows) with
    \<open>make_marker\<close> and \<open>category_layer\<close> (lines 76--120), and
    \<open>run_map\<close>, whose result record \<open>resource_map\<close> holds the centre, the summary and
    the layers. The claims (C17--C22) cover the top-K selection (a sub-multiset of size
    \<open>min 500 count\<close> dominating every dropped row, sorted and stable), the radius clamp,
    the layers of a successful run, the exact error behaviour (including the
    \<open>ValueError\<close> of an all-empty dataset) and the per-file summary.
  \<^item> This theory: the claims that span components: the two scripts, which read the same
    files, fail on the same inputs with the same \<open>ReadError\<close> (C16) and agree on every
    category total (C23).

  \<^bold>\<open>Numbers.\<close> Python floats are modelled as exact reals, so the equalities proved here
  are the exact-arithmetic statements; the scripts compute them in IEEE doubles, which the
  specification itself allows for (``exact under floating-point tolerance'').
  Loop indices and list positions are \<open>nat\<close>. No loop of either script can diverge: every
  loop runs over a finite list, so every loop is a structurally recursive \<open>fun\<close> and no
  fuel is needed.

  \<^bold>\<open>Not modelled.\<close> Console output (\<open>print\<close> and its number formatting), the Plotly and
  Folium objects themselves (layout, styling, HTML writing), the popup's HTML layout, and
  pandas' handling of NaN cells; their inputs (the node and link lists, the markers) are
  what the library models.
\<close>

subsection \<open>Properties across components\<close>

text \<open>
  C16 (error). The two scripts read the same four files and fail on exactly the same data
  directories: the Sankey script produces a figure exactly when the map script produces a
  map, and both report the same \<open>ReadError\<close> for the same unreadable file. They differ
  only in how an all-empty dataset fails (\<open>ZeroDivisionError\<close> at line 133 of the Sankey
  script, folium's \<open>ValueError\<close> in the map script).
\<close>

theorem scripts_fail_together:
  "((\<exists>fig. run_sankey fs = Inr fig) \<longleftrightarrow> (\<exists>m. run_map fs = Inr m)) \<and>
   (run_sankey fs = Inl (ReadError p) \<longleftrightarrow> run_map fs = Inl (ReadError p))"
proof (cases "first_unreadable fs data_files")
  case None
  then have "first_unreadable fs map_data_files = None" by (simp add: map_data_files_eq)
  then show ?thesis
    using None by (auto simp: run_sankey_cases run_map_cases map_data_files_eq)
next
  case (Some f)
  then obtain n q where f: "first_unreadable fs data_files = Some (n, q)" by (cases f) auto
  then show ?thesis by (simp add: run_sankey_cases run_map_cases map_data_files_eq)
qed

text \<open>
  C23 (functional). The two scripts agree on the data: they read the same four files, and
  for every category present in the combined frame the total the Sankey script feeds into
  the allocation (\<open>resource_totals\<close>, line 29) is the total the map script prints in
  its summary (line 48).
\<close>

theorem map_totals_match_sankey:
  assumes "load_combined fs data_files = Inr rows" and "run_map fs = Inr m"
    and "k \<in> resource_category ` set rows"
  shows "map_of (groupby_sum rows) k = map_option fst (map_of (map_summary m) k)"
proof -
  have load: "load_map_data fs = Inr rows"
    using assms(1) by (simp add: load_map_data_def map_data_files_eq)
  then have sm: "map_summary m = map (\<lambda>n. (n, resource_summary rows n)) (map fst map_data_files)"
    using run_map_Inr [OF assms(2)] by auto
  have "k \<in> set (map fst map_data_files)"
    using loaded_categories [OF assms(1)] assms(3) by (auto simp: map_data_files_eq)
  then have "map_of (map_summary m) k = Some (resource_summary rows k)"
    by (simp only: sm map_of_summary)
  then show ?thesis
    using assms(3) by (simp add: groupby_sum_lookup resource_summary_def Let_def)
qed

theorem map_totals_match_sankey_witness:
  "\<exists>m. run_map demo_fs = Inr m \<and>
     map_of (groupby_sum demo_rows) ''Forest Processing Waste'' =
       map_option fst (map_of (map_summary m) ''Forest Processing Waste'') \<and>
     map_of (groupby_sum demo_rows) ''Forest Processing Waste'' = Some 100"
proof -
  obtain m where m: "run_map demo_fs = Inr m" using run_map_demo by blast
  have k: "''Forest Processing Waste'' \<in> resource_category ` set demo_rows"
    by (simp add: demo_rows_def config_simps tag_category_def)
  have "map_of (groupby_sum demo_rows) ''Forest Processing Waste'' = Some 100"
    by (simp add: groupby_demo demo_totals_def)
  with map_totals_match_sankey [OF load_demo m k] m show ?thesis by auto
qed

end
